theory Spec2Isabelle
  imports Complex_Main
begin

section \<open>Python values used by the two export scripts\<close>

text \<open>
  The exceptions the modelled code can raise. A run that raises produces no output
  document, so every function that can raise returns \<open>py_error + 'a\<close>.
\<close>

datatype py_error = ValueError | TypeError | OverflowError

text \<open>
  A Python float is either NaN (which is also how pandas stores a missing cell) or a
  number. Numbers are taken as exact reals: rounding and the infinities of IEEE doubles
  are outside this model, and so is every statement about bit-exact totals.
\<close>

datatype pyfloat = NaN | Num real

text \<open>\<^verbatim>\<open>abs(x)\<close> on a float.\<close>

definition float_abs :: "pyfloat \<Rightarrow> pyfloat" where
  "float_abs x = (case x of NaN \<Rightarrow> NaN | Num r \<Rightarrow> Num \<bar>r\<bar>)"

text \<open>\<^verbatim>\<open>x <= 0\<close> and \<^verbatim>\<open>x > 0\<close>: every comparison with NaN is False.\<close>

definition float_le_zero :: "pyfloat \<Rightarrow> bool" where
  "float_le_zero x = (case x of NaN \<Rightarrow> False | Num r \<Rightarrow> r \<le> 0)"

definition float_gt_zero :: "pyfloat \<Rightarrow> bool" where
  "float_gt_zero x = (case x of NaN \<Rightarrow> False | Num r \<Rightarrow> 0 < r)"

text \<open>\<^verbatim>\<open>pd.isna(x)\<close> on a float.\<close>

definition isna :: "pyfloat \<Rightarrow> bool" where
  "isna x = (case x of NaN \<Rightarrow> True | Num r \<Rightarrow> False)"

text \<open>\<^verbatim>\<open>int(x)\<close> on a number: truncation towards zero.\<close>

definition py_int :: "real \<Rightarrow> int" where
  "py_int r = (if 0 \<le> r then \<lfloor>r\<rfloor> else \<lceil>r\<rceil>)"

subsection \<open>Dictionaries in insertion order\<close>

text \<open>
  Python dictionaries iterate in the order in which keys were first inserted, and the
  scripts iterate them (\<^verbatim>\<open>.items()\<close>, \<^verbatim>\<open>.keys()\<close>, \<^verbatim>\<open>.values()\<close>), so a dictionary is an
  association list in insertion order.
\<close>

type_synonym ('k, 'v) dict = "('k \<times> 'v) list"

text \<open>
  \<open>dict_upd dflt k f d\<close> is \<^verbatim>\<open>d[k] = f(d[k])\<close> on a \<^verbatim>\<open>defaultdict\<close> whose factory
  returns \<open>dflt\<close>: a missing key is first created with the default, at the end.
\<close>

fun dict_upd :: "'v \<Rightarrow> 'k \<Rightarrow> ('v \<Rightarrow> 'v) \<Rightarrow> ('k, 'v) dict \<Rightarrow> ('k, 'v) dict" where
  "dict_upd dflt k f [] = [(k, f dflt)]"
| "dict_upd dflt k f ((k', v) # d) =
     (if k' = k then (k', f v) # d else (k', v) # dict_upd dflt k f d)"

text \<open>\<^verbatim>\<open>d[k]\<close> read on a \<^verbatim>\<open>defaultdict\<close>: a missing key reads as the default.\<close>

fun dict_get :: "'v \<Rightarrow> ('k, 'v) dict \<Rightarrow> 'k \<Rightarrow> 'v" where
  "dict_get dflt [] k = dflt"
| "dict_get dflt ((k', v) # d) k = (if k' = k then v else dict_get dflt d k)"

text \<open>\<^verbatim>\<open>d[k] += n\<close> on a \<^verbatim>\<open>defaultdict(float)\<close>.\<close>

definition dict_add :: "'k \<Rightarrow> real \<Rightarrow> ('k, real) dict \<Rightarrow> ('k, real) dict" where
  "dict_add k n d = dict_upd 0 k (\<lambda>v. v + n) d"

text \<open>
  \<^verbatim>\<open>d[k1][k2] += n\<close> on a \<^verbatim>\<open>defaultdict(lambda: defaultdict(float))\<close>.
\<close>

definition dict_add2 ::
  "'k \<Rightarrow> 'k \<Rightarrow> real \<Rightarrow> ('k, ('k, real) dict) dict \<Rightarrow> ('k, ('k, real) dict) dict" where
  "dict_add2 k1 k2 n d = dict_upd [] k1 (dict_add k2 n) d"

definition dict_keys :: "('k, 'v) dict \<Rightarrow> 'k list" where
  "dict_keys d = map fst d"

definition dict_values :: "('k, 'v) dict \<Rightarrow> 'v list" where
  "dict_values d = map snd d"

section \<open>The flow export: \<^verbatim>\<open>export_flow_data.py\<close>\<close>

subsection \<open>Input rows and the accumulators\<close>

text \<open>
  One row of the table as the flow export reads it. The script reads the five columns
  by name with no fallback, converting with \<^verbatim>\<open>int\<close>, \<^verbatim>\<open>str\<close> and \<^verbatim>\<open>float\<close>; the row
  record holds the converted values, \<open>row_adl_notional\<close> being NaN for a missing cell.
\<close>

record adl_row =
  row_time :: int
  row_liquidated_user :: string
  row_user :: string
  row_coin :: string
  row_adl_notional :: pyfloat

text \<open>The per-second accumulator created by the \<^verbatim>\<open>time_buckets\<close> factory.\<close>

record bucket =
  b_assetFlows :: "(string, (string, real) dict) dict"
  b_accountFlows :: "(string, (string, real) dict) dict"
  b_liquidatedByAsset :: "(string, real) dict"
  b_adldByAsset :: "(string, real) dict"
  b_cumulativeNotional :: real
  b_cumulativeLiquidated :: real
  b_cumulativeAdld :: real
  b_eventCount :: nat

definition new_bucket :: bucket where
  "new_bucket = \<lparr> b_assetFlows = [], b_accountFlows = [], b_liquidatedByAsset = [],
     b_adldByAsset = [], b_cumulativeNotional = 0, b_cumulativeLiquidated = 0,
     b_cumulativeAdld = 0, b_eventCount = 0 \<rparr>"

text \<open>
  \<^verbatim>\<open>min_timestamp\<close> and \<^verbatim>\<open>max_timestamp\<close> start as the floats \<^verbatim>\<open>inf\<close> and \<^verbatim>\<open>-inf\<close> and hold
  an integer timestamp after the first row.
\<close>

datatype ext_ts = PosInf | NegInf | Ts int

text \<open>\<^verbatim>\<open>min(a, t)\<close> and \<^verbatim>\<open>max(a, t)\<close> for the running bound \<open>a\<close> and an integer \<open>t\<close>.\<close>

fun py_min :: "ext_ts \<Rightarrow> int \<Rightarrow> ext_ts" where
  "py_min PosInf t = Ts t"
| "py_min NegInf t = NegInf"
| "py_min (Ts m) t = Ts (min m t)"

fun py_max :: "ext_ts \<Rightarrow> int \<Rightarrow> ext_ts" where
  "py_max NegInf t = Ts t"
| "py_max PosInf t = PosInf"
| "py_max (Ts m) t = Ts (max m t)"

record flow_state =
  asset_flows :: "(string, (string, real) dict) dict"
  asset_totals :: "(string, real) dict"
  liquidated_by_asset :: "(string, real) dict"
  adld_by_asset :: "(string, real) dict"
  account_flows :: "(string, (string, real) dict) dict"
  account_totals_in :: "(string, real) dict"
  account_totals_out :: "(string, real) dict"
  time_buckets :: "(int, bucket) dict"
  min_timestamp :: ext_ts
  max_timestamp :: ext_ts

definition init_state :: flow_state where
  "init_state = \<lparr> asset_flows = [], asset_totals = [], liquidated_by_asset = [],
     adld_by_asset = [], account_flows = [], account_totals_in = [],
     account_totals_out = [], time_buckets = [], min_timestamp = PosInf,
     max_timestamp = NegInf \<rparr>"

subsection \<open>The aggregation pass (lines 68 to 105)\<close>

text \<open>\<^verbatim>\<open>int(timestamp_ms / 1000) * 1000\<close>: true division, then truncation.\<close>

definition time_bucket_of :: "int \<Rightarrow> int" where
  "time_bucket_of timestamp_ms = py_int (real_of_int timestamp_ms / 1000) * 1000"

text \<open>The updates of one bucket for an event that passed the notional check.\<close>

definition bucket_add :: "string \<Rightarrow> string \<Rightarrow> string \<Rightarrow> real \<Rightarrow> bucket \<Rightarrow> bucket" where
  "bucket_add liquidated_user target_user asset notional b =
     b \<lparr> b_assetFlows := dict_add2 asset asset notional (b_assetFlows b),
         b_accountFlows := dict_add2 liquidated_user target_user notional (b_accountFlows b),
         b_liquidatedByAsset := dict_add asset notional (b_liquidatedByAsset b),
         b_adldByAsset := dict_add asset notional (b_adldByAsset b),
         b_cumulativeNotional := b_cumulativeNotional b + notional,
         b_eventCount := b_eventCount b + 1 \<rparr>"

text \<open>The part of the loop body after the \<^verbatim>\<open>continue\<close> (lines 83 to 105).\<close>

definition add_event ::
  "int \<Rightarrow> string \<Rightarrow> string \<Rightarrow> string \<Rightarrow> real \<Rightarrow> flow_state \<Rightarrow> flow_state" where
  "add_event timestamp_ms liquidated_user target_user asset notional st =
     st \<lparr> liquidated_by_asset := dict_add asset notional (liquidated_by_asset st),
          adld_by_asset := dict_add asset notional (adld_by_asset st),
          asset_flows := dict_add2 asset asset notional (asset_flows st),
          asset_totals := dict_add asset notional (asset_totals st),
          account_flows := dict_add2 liquidated_user target_user notional (account_flows st),
          account_totals_out := dict_add liquidated_user notional (account_totals_out st),
          account_totals_in := dict_add target_user notional (account_totals_in st),
          time_buckets := dict_upd new_bucket (time_bucket_of timestamp_ms)
             (bucket_add liquidated_user target_user asset notional) (time_buckets st) \<rparr>"

text \<open>
  One iteration of the loop: the timestamp bounds are updated first, then the row is
  skipped when \<^verbatim>\<open>notional <= 0 or pd.isna(notional)\<close>, where
  \<^verbatim>\<open>notional = abs(float(row['adl_notional']))\<close>.
\<close>

definition process_row :: "flow_state \<Rightarrow> adl_row \<Rightarrow> flow_state" where
  "process_row st row =
     (let timestamp_ms = row_time row;
          st1 = st \<lparr> min_timestamp := py_min (min_timestamp st) timestamp_ms,
                     max_timestamp := py_max (max_timestamp st) timestamp_ms \<rparr>;
          notional = float_abs (row_adl_notional row)
      in if float_le_zero notional \<or> isna notional then st1
         else (case notional of
                 NaN \<Rightarrow> st1
               | Num n \<Rightarrow> add_event timestamp_ms (row_liquidated_user row) (row_user row)
                            (row_coin row) n st1))"

definition accumulate :: "adl_row list \<Rightarrow> flow_state" where
  "accumulate df = foldl process_row init_state df"

subsection \<open>The output lists (lines 107 to 171)\<close>

record flow_edge =
  fe_source :: string
  fe_target :: string
  fe_notional :: real

record asset_flow =
  af_source :: string
  af_target :: string
  af_notional :: real
  af_count :: nat

text \<open>
  \<^verbatim>\<open>asset_flows_list\<close>: one entry per positive inner entry of \<^verbatim>\<open>asset_flows\<close>, with the
  number of rows of that coin whose absolute notional is positive.
\<close>

definition asset_flows_list :: "adl_row list \<Rightarrow> flow_state \<Rightarrow> asset_flow list" where
  "asset_flows_list df st =
     concat (map (\<lambda>(source, targets).
       map (\<lambda>(target, notional).
              \<lparr> af_source = source, af_target = target, af_notional = notional,
                af_count = length (filter (\<lambda>row. row_coin row = source \<and>
                   float_gt_zero (float_abs (row_adl_notional row))) df) \<rparr>)
           (filter (\<lambda>(target, notional). 0 < notional) targets))
       (asset_flows st))"

text \<open>
  \<^verbatim>\<open>sorted(d.items(), key=lambda x: x[1], reverse=True)\<close>: Python's sort is stable, also
  with \<^verbatim>\<open>reverse=True\<close>, so entries with equal totals keep their dictionary order.
\<close>

definition sorted_by_total_desc :: "('k, real) dict \<Rightarrow> ('k \<times> real) list" where
  "sorted_by_total_desc d = sort_key (\<lambda>x. - snd x) d"

definition top_liquidated :: "flow_state \<Rightarrow> (string \<times> real) list" where
  "top_liquidated st = take 50 (sorted_by_total_desc (account_totals_out st))"

definition top_counterparties :: "flow_state \<Rightarrow> (string \<times> real) list" where
  "top_counterparties st = take 50 (sorted_by_total_desc (account_totals_in st))"

definition top_accounts_set :: "flow_state \<Rightarrow> string set" where
  "top_accounts_set st = set (map fst (top_liquidated st @ top_counterparties st))"

text \<open>
  \<^verbatim>\<open>account_flows_list\<close>: the outer loop skips a source outside \<^verbatim>\<open>top_accounts_set\<close>, the
  inner loop skips a target outside it, and only positive totals are appended.
\<close>

definition account_flows_list :: "flow_state \<Rightarrow> flow_edge list" where
  "account_flows_list st =
     concat (map (\<lambda>(source, targets).
       if source \<notin> top_accounts_set st then []
       else map (\<lambda>(target, notional).
                   \<lparr> fe_source = source, fe_target = target, fe_notional = notional \<rparr>)
              (filter (\<lambda>(target, notional). target \<in> top_accounts_set st \<and> 0 < notional)
                 targets))
       (account_flows st))"

record bucket_summary =
  bs_time :: int
  bs_timeISO :: string
  bs_cumulativeNotional :: real
  bs_cumulativeLiquidated :: real
  bs_cumulativeAdld :: real
  bs_notionalInBucket :: real
  bs_eventCount :: nat
  bs_liquidatedByAsset :: "(string, real) dict"
  bs_adldByAsset :: "(string, real) dict"
  bs_assetFlows :: "flow_edge list"

text \<open>
  \<^verbatim>\<open>s.replace(old, new)\<close> for a non-empty \<open>old\<close>: occurrences are replaced from the left
  and do not overlap. The counter is the number of characters of a matched occurrence
  still to be skipped.
\<close>

fun str_replace_from :: "string \<Rightarrow> string \<Rightarrow> nat \<Rightarrow> string \<Rightarrow> string" where
  "str_replace_from old new k [] = []"
| "str_replace_from old new (Suc k) (c # cs) = str_replace_from old new k cs"
| "str_replace_from old new 0 (c # cs) =
     (if old \<noteq> [] \<and> take (length old) (c # cs) = old
      then new @ str_replace_from old new (length old - 1) cs
      else c # str_replace_from old new 0 cs)"

definition str_replace :: "string \<Rightarrow> string \<Rightarrow> string \<Rightarrow> string" where
  "str_replace old new s = str_replace_from old new 0 s"

text \<open>The list comprehension that flattens a bucket's \<^verbatim>\<open>assetFlows\<close>.\<close>

definition bucket_asset_flows :: "bucket \<Rightarrow> flow_edge list" where
  "bucket_asset_flows b =
     concat (map (\<lambda>(source, targets).
       map (\<lambda>(target, notional).
              \<lparr> fe_source = source, fe_target = target, fe_notional = notional \<rparr>)
           (filter (\<lambda>(target, notional). 0 < notional) targets))
       (b_assetFlows b))"

text \<open>
  The loop over the sorted bucket keys (lines 145 to 171), with its three running sums.
  The standard library call \<^verbatim>\<open>datetime.fromtimestamp(x, tz=timezone.utc).isoformat()\<close> is
  the parameter \<open>utc_isoformat\<close>; it raises for a time outside the years the library
  supports, which ends the run.
\<close>

fun bucket_summaries ::
  "(real \<Rightarrow> py_error + string) \<Rightarrow> (int, bucket) dict \<Rightarrow> real \<Rightarrow> real \<Rightarrow> real \<Rightarrow> int list
     \<Rightarrow> py_error + bucket_summary list" where
  "bucket_summaries utc_isoformat tb cumulative cumulative_liquidated cumulative_adld [] = Inr []"
| "bucket_summaries utc_isoformat tb cumulative cumulative_liquidated cumulative_adld
     (time_ms # rest) =
     (let bucket = dict_get new_bucket tb time_ms;
          cumulative' = cumulative + b_cumulativeNotional bucket;
          cumulative_liquidated' =
            cumulative_liquidated + sum_list (dict_values (b_liquidatedByAsset bucket));
          cumulative_adld' = cumulative_adld + sum_list (dict_values (b_adldByAsset bucket))
      in case utc_isoformat (real_of_int time_ms / 1000) of
           Inl e \<Rightarrow> Inl e
         | Inr time_iso \<Rightarrow>
             (case bucket_summaries utc_isoformat tb cumulative' cumulative_liquidated'
                     cumulative_adld' rest of
                Inl e \<Rightarrow> Inl e
              | Inr out \<Rightarrow>
                  Inr (\<lparr> bs_time = time_ms,
                         bs_timeISO = str_replace ''+00:00'' ''Z'' time_iso,
                         bs_cumulativeNotional = cumulative',
                         bs_cumulativeLiquidated = cumulative_liquidated',
                         bs_cumulativeAdld = cumulative_adld',
                         bs_notionalInBucket = b_cumulativeNotional bucket,
                         bs_eventCount = b_eventCount bucket,
                         bs_liquidatedByAsset = b_liquidatedByAsset bucket,
                         bs_adldByAsset = b_adldByAsset bucket,
                         bs_assetFlows = bucket_asset_flows bucket \<rparr> # out)))"

definition time_buckets_list ::
  "(real \<Rightarrow> py_error + string) \<Rightarrow> flow_state \<Rightarrow> py_error + bucket_summary list" where
  "time_buckets_list utc_isoformat st =
     bucket_summaries utc_isoformat (time_buckets st) 0 0 0 (sort (dict_keys (time_buckets st)))"

subsection \<open>Statistics and the document (lines 173 to 229)\<close>

record asset_stat =
  as_asset :: string
  as_totalNotional :: real
  as_eventCount :: nat

definition asset_stats :: "adl_row list \<Rightarrow> flow_state \<Rightarrow> asset_stat list" where
  "asset_stats df st =
     map (\<lambda>(asset, total).
            \<lparr> as_asset = asset, as_totalNotional = total,
              as_eventCount = length (filter (\<lambda>row. row_coin row = asset) df) \<rparr>)
         (sorted_by_total_desc (asset_totals st))"

record metadata =
  md_eventCount :: nat
  md_start :: int
  md_end :: int
  md_durationMinutes :: real
  md_totalNotionalUsd :: real
  md_totalLiquidatedNotional :: real
  md_totalAdldNotional :: real
  md_uniqueAssets :: nat
  md_uniqueAccounts :: nat

text \<open>\<^verbatim>\<open>int(x)\<close> on a running bound: an infinity raises \<^verbatim>\<open>OverflowError\<close>.\<close>

fun int_of_ext :: "ext_ts \<Rightarrow> py_error + int" where
  "int_of_ext (Ts t) = Inr t"
| "int_of_ext PosInf = Inl OverflowError"
| "int_of_ext NegInf = Inl OverflowError"

text \<open>
  The \<^verbatim>\<open>metadata\<close> dictionary. \<^verbatim>\<open>start\<close> is evaluated first, then \<^verbatim>\<open>end\<close>; once both are
  integers the duration is their difference divided by 60000.
\<close>

definition flow_metadata :: "adl_row list \<Rightarrow> flow_state \<Rightarrow> py_error + metadata" where
  "flow_metadata df st =
     (case int_of_ext (min_timestamp st) of
        Inl e \<Rightarrow> Inl e
      | Inr start \<Rightarrow>
          (case int_of_ext (max_timestamp st) of
             Inl e \<Rightarrow> Inl e
           | Inr end_ts \<Rightarrow>
               Inr \<lparr> md_eventCount = length df,
                     md_start = start,
                     md_end = end_ts,
                     md_durationMinutes = real_of_int (end_ts - start) / (60 * 1000),
                     md_totalNotionalUsd = sum_list (dict_values (asset_totals st)),
                     md_totalLiquidatedNotional = sum_list (dict_values (liquidated_by_asset st)),
                     md_totalAdldNotional = sum_list (dict_values (adld_by_asset st)),
                     md_uniqueAssets = length (asset_totals st),
                     md_uniqueAccounts =
                       card (set (dict_keys (account_totals_in st)) \<union>
                             set (dict_keys (account_totals_out st))) \<rparr>))"

text \<open>
  The flow document. Its \<^verbatim>\<open>assetLiquidationStats\<close> list is left out: the script builds it
  by iterating a Python \<^verbatim>\<open>set\<close> of strings, whose order is not determined by the program.
\<close>

record flow_document =
  doc_metadata :: metadata
  doc_assetFlows :: "asset_flow list"
  doc_assetStats :: "asset_stat list"
  doc_accountFlows :: "flow_edge list"
  doc_topLiquidated :: "(string \<times> real) list"
  doc_topCounterparties :: "(string \<times> real) list"
  doc_timeBuckets :: "bucket_summary list"

definition export_flow_data ::
  "(real \<Rightarrow> py_error + string) \<Rightarrow> adl_row list \<Rightarrow> py_error + flow_document" where
  "export_flow_data utc_isoformat df =
     (let st = accumulate df in
      case time_buckets_list utc_isoformat st of
        Inl e \<Rightarrow> Inl e
      | Inr tbl \<Rightarrow>
          (case flow_metadata df st of
             Inl e \<Rightarrow> Inl e
           | Inr md \<Rightarrow>
               Inr \<lparr> doc_metadata = md,
                     doc_assetFlows = asset_flows_list df st,
                     doc_assetStats = asset_stats df st,
                     doc_accountFlows = account_flows_list st,
                     doc_topLiquidated = top_liquidated st,
                     doc_topCounterparties = top_counterparties st,
                     doc_timeBuckets = tbl \<rparr>))"

subsection \<open>The notional check, named\<close>

text \<open>
  The negation of the loop's \<^verbatim>\<open>continue\<close> condition, and the value of \<^verbatim>\<open>notional\<close> for a
  row that is not skipped.
\<close>

definition passes_filter :: "adl_row \<Rightarrow> bool" where
  "passes_filter row =
     (let notional = float_abs (row_adl_notional row)
      in \<not> (float_le_zero notional \<or> isna notional))"

definition row_notional :: "adl_row \<Rightarrow> real" where
  "row_notional row = (case float_abs (row_adl_notional row) of NaN \<Rightarrow> 0 | Num n \<Rightarrow> n)"

text \<open>Lines 69 to 71: the update of the two timestamp bounds.\<close>

definition bump_bounds :: "int \<Rightarrow> flow_state \<Rightarrow> flow_state" where
  "bump_bounds timestamp_ms st =
     st \<lparr> min_timestamp := py_min (min_timestamp st) timestamp_ms,
          max_timestamp := py_max (max_timestamp st) timestamp_ms \<rparr>"

text \<open>The three rows of the specification's end-to-end scenario.\<close>

definition scenario_rows :: "adl_row list" where
  "scenario_rows =
     [\<lparr> row_time = 1000000000000, row_liquidated_user = ''U2'', row_user = ''U1'',
        row_coin = ''BTC'', row_adl_notional = Num 100 \<rparr>,
      \<lparr> row_time = 1000000000500, row_liquidated_user = ''U2'', row_user = ''U1'',
        row_coin = ''BTC'', row_adl_notional = Num 50 \<rparr>,
      \<lparr> row_time = 1000000001200, row_liquidated_user = ''U2'', row_user = ''U3'',
        row_coin = ''ETH'', row_adl_notional = Num 200 \<rparr>]"

text \<open>
  The accumulators other than the two timestamp bounds: everything the pass aggregates.
\<close>

definition aggregates ::
  "flow_state \<Rightarrow>
     (string, real) dict \<times> (string, real) dict \<times> (string, real) dict \<times>
     (string, (string, real) dict) dict \<times> (string, real) dict \<times> (string, real) dict \<times>
     (int, bucket) dict \<times> (string, (string, real) dict) dict" where
  "aggregates st =
     (asset_totals st, liquidated_by_asset st, adld_by_asset st, account_flows st,
      account_totals_out st, account_totals_in st, time_buckets st, asset_flows st)"

text \<open>Rows with a negative, a zero and a missing notional, for concrete runs.\<close>

definition negative_row :: adl_row where
  "negative_row = \<lparr> row_time = 5000, row_liquidated_user = ''U2'', row_user = ''U1'',
     row_coin = ''BTC'', row_adl_notional = Num (- 5) \<rparr>"

definition zero_row :: adl_row where
  "zero_row = \<lparr> row_time = 7300, row_liquidated_user = ''U4'', row_user = ''U5'',
     row_coin = ''SOL'', row_adl_notional = Num 0 \<rparr>"

definition missing_row :: adl_row where
  "missing_row = \<lparr> row_time = 900, row_liquidated_user = ''U6'', row_user = ''U7'',
     row_coin = ''DOGE'', row_adl_notional = NaN \<rparr>"

text \<open>Invariant of the pass: no bucket has a negative in-bucket notional.\<close>

definition buckets_ok :: "(int, bucket) dict \<Rightarrow> bool" where
  "buckets_ok tb = (\<forall>(k, b) \<in> set tb. 0 \<le> b_cumulativeNotional b)"

text \<open>The scenario with a missing-notional row in front and a zero-notional row behind.\<close>

definition mixed_rows :: "adl_row list" where
  "mixed_rows = missing_row # scenario_rows @ [zero_row]"

text \<open>Two rows in which each of two accounts is once liquidated and once the counterparty.\<close>

definition two_way_rows :: "adl_row list" where
  "two_way_rows =
     [\<lparr> row_time = 1000, row_liquidated_user = ''U1'', row_user = ''U2'',
        row_coin = ''BTC'', row_adl_notional = Num 100 \<rparr>,
      \<lparr> row_time = 2000, row_liquidated_user = ''U2'', row_user = ''U1'',
        row_coin = ''BTC'', row_adl_notional = Num 50 \<rparr>]"

section \<open>The event export: \<^verbatim>\<open>export_adl_events_json.py\<close>\<close>

subsection \<open>Cells, rows and the standard library\<close>

text \<open>
  A cell of a pandas row: an integer, a float (NaN being the missing value, for which
  \<^verbatim>\<open>pd.notna\<close> is False) or a string. A row maps the column names of the table to cells;
  \<^verbatim>\<open>'c' in row\<close> holds when the table has the column.
\<close>

datatype cell = IntV int | FloatV pyfloat | StrV string

type_synonym row = "string \<rightharpoonup> cell"

definition notna :: "cell \<Rightarrow> bool" where
  "notna c = (c \<noteq> FloatV NaN)"

text \<open>
  The calls into Python's standard library whose results the script only passes on:
  \<^item> \<open>fromisoformat_timestamp s\<close> is \<^verbatim>\<open>datetime.fromisoformat(s).timestamp()\<close>, in seconds,
    and \<open>None\<close> when either call raises;
  \<^item> \<open>float_of_str s\<close> is \<^verbatim>\<open>float(s)\<close> on a string, \<open>None\<close> when it raises \<^verbatim>\<open>ValueError\<close>;
  \<^item> \<open>str_of_float x\<close> is \<^verbatim>\<open>str(x)\<close> on a float that is a number;
  \<^item> \<open>times_1000 x\<close> is the float product \<^verbatim>\<open>x * 1000\<close>: the exact product rounded to a
    double, and \<open>None\<close> when it overflows to an infinity (on which \<^verbatim>\<open>int\<close> raises
    \<^verbatim>\<open>OverflowError\<close>);
  \<^item> \<open>local_isoformat x\<close> is \<^verbatim>\<open>datetime.fromtimestamp(x).isoformat()\<close>, which raises for a
    time outside the years the library supports.
\<close>

record pylib =
  fromisoformat_timestamp :: "string \<Rightarrow> real option"
  float_of_str :: "string \<Rightarrow> pyfloat option"
  str_of_float :: "real \<Rightarrow> string"
  times_1000 :: "real \<Rightarrow> real option"
  local_isoformat :: "real \<Rightarrow> py_error + string"

text \<open>\<^verbatim>\<open>str(n)\<close> on an integer: its decimal digits, with a minus sign when negative.\<close>

fun str_of_nat :: "nat \<Rightarrow> string" where
  "str_of_nat n =
     (if n < 10 then [''0123456789'' ! n]
      else str_of_nat (n div 10) @ [''0123456789'' ! (n mod 10)])"

definition str_of_int :: "int \<Rightarrow> string" where
  "str_of_int i = (if i < 0 then CHR ''-'' # str_of_nat (nat (- i)) else str_of_nat (nat i))"

text \<open>\<^verbatim>\<open>str(c)\<close> on a cell.\<close>

fun py_str :: "pylib \<Rightarrow> cell \<Rightarrow> string" where
  "py_str lib (IntV n) = str_of_int n"
| "py_str lib (FloatV NaN) = ''nan''"
| "py_str lib (FloatV (Num r)) = str_of_float lib r"
| "py_str lib (StrV s) = s"

text \<open>
  \<^verbatim>\<open>float(c)\<close> on a cell: a string that is not a float literal raises \<^verbatim>\<open>ValueError\<close>.
\<close>

fun py_float :: "pylib \<Rightarrow> cell \<Rightarrow> py_error + pyfloat" where
  "py_float lib (IntV n) = Inr (Num (real_of_int n))"
| "py_float lib (FloatV x) = Inr x"
| "py_float lib (StrV s) =
     (case float_of_str lib s of None \<Rightarrow> Inl ValueError | Some x \<Rightarrow> Inr x)"

text \<open>
  \<^verbatim>\<open>s.lower()\<close>: the letters A to Z are mapped to a to z and every other character is
  kept. (Python also lowers letters outside ASCII; none of them becomes a letter of the
  words the script looks for.)
\<close>

definition lower_char :: "char \<Rightarrow> char" where
  "lower_char c =
     (case map_of (zip ''ABCDEFGHIJKLMNOPQRSTUVWXYZ'' ''abcdefghijklmnopqrstuvwxyz'') c of
        None \<Rightarrow> c
      | Some l \<Rightarrow> l)"

definition lower :: "string \<Rightarrow> string" where
  "lower s = map lower_char s"

text \<open>\<^verbatim>\<open>sub in s\<close> on strings: \<open>sub\<close> occurs in \<open>s\<close> as a contiguous substring.\<close>

fun py_in :: "string \<Rightarrow> string \<Rightarrow> bool" where
  "py_in sub [] = (sub = [])"
| "py_in sub (c # cs) = (take (length sub) (c # cs) = sub \<or> py_in sub cs)"

subsection \<open>\<^verbatim>\<open>parse_timestamp\<close> (lines 22 to 43)\<close>

text \<open>
  The branch shared by the float input and the numeric string: below \<^verbatim>\<open>1e12\<close> the value is
  taken as seconds and \<^verbatim>\<open>int(num * 1000)\<close> is returned, otherwise \<^verbatim>\<open>int(num)\<close>. The result
  is \<open>None\<close> when \<^verbatim>\<open>int\<close> raises because the product is infinite.
\<close>

definition ms_of_number :: "pylib \<Rightarrow> real \<Rightarrow> int option" where
  "ms_of_number lib num =
     (if num < 10 ^ 12 then map_option py_int (times_1000 lib num) else Some (py_int num))"

text \<open>The inner \<^verbatim>\<open>try\<close> of the string branch (lines 36 to 42).\<close>

definition numeric_string_ms :: "pylib \<Rightarrow> string \<Rightarrow> int option" where
  "numeric_string_ms lib ts =
     (case float_of_str lib ts of
        None \<Rightarrow> None
      | Some NaN \<Rightarrow> None
      | Some (Num num) \<Rightarrow> ms_of_number lib num)"

text \<open>
  A float cell is an instance of \<^verbatim>\<open>float\<close> also when it is NaN: then \<^verbatim>\<open>ts < 1e12\<close> is False
  and \<^verbatim>\<open>int(ts)\<close> raises \<^verbatim>\<open>ValueError\<close>, outside any \<^verbatim>\<open>try\<close>. In the string branch every
  exception is caught: one raised in the outer \<^verbatim>\<open>try\<close> leads to the inner \<^verbatim>\<open>try\<close>, and one
  raised there (also by \<^verbatim>\<open>int\<close> on a NaN or an infinity) gives \<^verbatim>\<open>None\<close>. An integer is
  multiplied as an integer, without rounding.
\<close>

fun parse_timestamp :: "pylib \<Rightarrow> cell \<Rightarrow> py_error + int option" where
  "parse_timestamp lib (IntV ts) =
     (if real_of_int ts < 10 ^ 12 then Inr (Some (ts * 1000)) else Inr (Some ts))"
| "parse_timestamp lib (FloatV NaN) = Inl ValueError"
| "parse_timestamp lib (FloatV (Num ts)) =
     (case ms_of_number lib ts of None \<Rightarrow> Inl OverflowError | Some ms \<Rightarrow> Inr (Some ms))"
| "parse_timestamp lib (StrV ts) =
     (case fromisoformat_timestamp lib (str_replace ''Z'' ''+00:00'' ts) of
        None \<Rightarrow> Inr (numeric_string_ms lib ts)
      | Some seconds \<Rightarrow>
          (case times_1000 lib seconds of
             None \<Rightarrow> Inr (numeric_string_ms lib ts)
           | Some product \<Rightarrow> Inr (Some (py_int product))))"

subsection \<open>\<^verbatim>\<open>determine_side\<close> (lines 45 to 70)\<close>

text \<open>
  The three \<^verbatim>\<open>if\<close> blocks of the function, each giving the side it returns or \<open>None\<close>
  when control falls through to the next block.
\<close>

definition side_rule :: "pylib \<Rightarrow> row \<Rightarrow> string option" where
  "side_rule lib row =
     (case row ''side'' of
        None \<Rightarrow> None
      | Some c \<Rightarrow>
          if notna c then
            (let side_str = lower (py_str lib c)
             in if py_in ''b'' side_str \<or> py_in ''buy'' side_str \<or> py_in ''long'' side_str
                then Some ''long''
                else if py_in ''a'' side_str \<or> py_in ''sell'' side_str \<or> py_in ''short'' side_str
                then Some ''short''
                else None)
          else None)"

definition direction_rule :: "pylib \<Rightarrow> row \<Rightarrow> string option" where
  "direction_rule lib row =
     (case row ''direction'' of
        None \<Rightarrow> None
      | Some c \<Rightarrow>
          if notna c then
            (let dir_str = lower (py_str lib c)
             in if py_in ''long'' dir_str then Some ''long''
                else if py_in ''short'' dir_str then Some ''short''
                else None)
          else None)"

text \<open>
  \<^verbatim>\<open>row['position_size'] > 0\<close> compares a number with 0; for a string cell Python raises
  \<^verbatim>\<open>TypeError\<close>.
\<close>

definition position_rule :: "row \<Rightarrow> py_error + string option" where
  "position_rule row =
     (case row ''position_size'' of
        None \<Rightarrow> Inr None
      | Some c \<Rightarrow>
          if notna c then
            (case c of
               IntV n \<Rightarrow> Inr (if n > 0 then Some ''long'' else if n < 0 then Some ''short'' else None)
             | FloatV NaN \<Rightarrow> Inr None
             | FloatV (Num r) \<Rightarrow>
                 Inr (if r > 0 then Some ''long'' else if r < 0 then Some ''short'' else None)
             | StrV s \<Rightarrow> Inl TypeError)
          else Inr None)"

definition determine_side :: "pylib \<Rightarrow> row \<Rightarrow> py_error + string" where
  "determine_side lib row =
     (case side_rule lib row of
        Some side \<Rightarrow> Inr side
      | None \<Rightarrow>
          (case direction_rule lib row of
             Some side \<Rightarrow> Inr side
           | None \<Rightarrow>
               (case position_rule row of
                  Inl e \<Rightarrow> Inl e
                | Inr (Some side) \<Rightarrow> Inr side
                | Inr None \<Rightarrow> Inr ''long'')))"

subsection \<open>The loop over the rows (lines 87 to 159)\<close>

record event =
  ev_timestamp :: int
  ev_timestampISO :: string
  ev_asset :: string
  ev_notionalUsd :: pyfloat
  ev_side :: string
  ev_liquidatedUserId :: string
  ev_targetUserId :: string
  ev_batchId :: string
  ev_equityBefore :: "pyfloat option"
  ev_equityAfter :: "pyfloat option"
  ev_leverage :: "pyfloat option"
  ev_realizedPnl :: "pyfloat option"
  ev_unrealizedPnl :: "pyfloat option"

text \<open>\<^verbatim>\<open>col in row and pd.notna(row[col])\<close>, giving the cell.\<close>

definition present :: "row \<Rightarrow> string \<Rightarrow> cell option" where
  "present row col =
     (case row col of None \<Rightarrow> None | Some c \<Rightarrow> if notna c then Some c else None)"

text \<open>The \<^verbatim>\<open>for col in [...]\<close> loops with \<^verbatim>\<open>break\<close>: the first column that is present.\<close>

fun first_present :: "row \<Rightarrow> string list \<Rightarrow> cell option" where
  "first_present row [] = None"
| "first_present row (col # cols) =
     (case present row col of None \<Rightarrow> first_present row cols | Some c \<Rightarrow> Some c)"

text \<open>Lines 106 to 110: \<^verbatim>\<open>notional\<close>, which is \<^verbatim>\<open>None\<close> when no candidate column is present.\<close>

definition resolve_notional :: "pylib \<Rightarrow> row \<Rightarrow> py_error + pyfloat option" where
  "resolve_notional lib row =
     (case first_present row [''adl_notional'', ''notional'', ''usd'', ''value''] of
        None \<Rightarrow> Inr None
      | Some c \<Rightarrow> (case py_float lib c of Inl e \<Rightarrow> Inl e | Inr x \<Rightarrow> Inr (Some x)))"

text \<open>Lines 91 to 93: \<^verbatim>\<open>timestamp_ms\<close>, which stays \<^verbatim>\<open>None\<close> without a \<^verbatim>\<open>time\<close> column.\<close>

definition resolve_timestamp :: "pylib \<Rightarrow> row \<Rightarrow> py_error + int option" where
  "resolve_timestamp lib row =
     (case row ''time'' of None \<Rightarrow> Inr None | Some c \<Rightarrow> parse_timestamp lib c)"

text \<open>An optional field: \<^verbatim>\<open>float(row[col])\<close> when the column is present.\<close>

definition optional_float :: "pylib \<Rightarrow> row \<Rightarrow> string \<Rightarrow> py_error + pyfloat option" where
  "optional_float lib row col =
     (case present row col of
        None \<Rightarrow> Inr None
      | Some c \<Rightarrow> (case py_float lib c of Inl e \<Rightarrow> Inl e | Inr x \<Rightarrow> Inr (Some x)))"

text \<open>\<^verbatim>\<open>x or d\<close> for an optional string: \<^verbatim>\<open>None\<close> and the empty string give \<open>d\<close>.\<close>

definition str_or :: "string option \<Rightarrow> string \<Rightarrow> string" where
  "str_or x d = (case x of None \<Rightarrow> d | Some s \<Rightarrow> if s = [] then d else s)"

text \<open>Sequencing of steps that can raise.\<close>

definition py_bind :: "py_error + 'a \<Rightarrow> ('a \<Rightarrow> py_error + 'b) \<Rightarrow> py_error + 'b" where
  "py_bind m f = (case m of Inl e \<Rightarrow> Inl e | Inr x \<Rightarrow> f x)"

text \<open>Lines 115 to 154: the event built for a row that was not skipped.\<close>

definition make_event :: "pylib \<Rightarrow> row \<Rightarrow> int \<Rightarrow> pyfloat \<Rightarrow> py_error + event" where
  "make_event lib row timestamp_ms notional =
     (let asset = map_option (py_str lib)
                    (first_present row [''coin'', ''asset'', ''ticker'', ''symbol'']);
          liquidated_user = map_option (py_str lib) (present row ''liquidated_user'');
          target_user = map_option (py_str lib) (present row ''user'')
      in py_bind (determine_side lib row) (\<lambda>side.
         py_bind (local_isoformat lib (real_of_int timestamp_ms / 1000)) (\<lambda>iso_text.
         py_bind (optional_float lib row ''account_value_realtime'') (\<lambda>equity_before.
         py_bind (optional_float lib row ''total_equity'') (\<lambda>equity_after.
         py_bind (optional_float lib row ''leverage_realtime'') (\<lambda>leverage.
         py_bind (optional_float lib row ''closed_pnl'') (\<lambda>realized_pnl.
         py_bind (optional_float lib row ''position_unrealized_pnl'') (\<lambda>unrealized_pnl.
         Inr \<lparr> ev_timestamp = timestamp_ms,
               ev_timestampISO = iso_text @ ''Z'',
               ev_asset = str_or asset ''UNKNOWN'',
               ev_notionalUsd = notional,
               ev_side = side,
               ev_liquidatedUserId = str_or liquidated_user '''',
               ev_targetUserId = str_or target_user '''',
               ev_batchId = str_of_int (py_int (real_of_int timestamp_ms / 1000)),
               ev_equityBefore = equity_before,
               ev_equityAfter = equity_after,
               ev_leverage = leverage,
               ev_realizedPnl = realized_pnl,
               ev_unrealizedPnl = unrealized_pnl \<rparr>))))))))"

text \<open>
  One iteration: \<open>Inr None\<close> is \<^verbatim>\<open>continue\<close>, \<open>Inr (Some ev)\<close> is the event appended, and
  \<open>Inl e\<close> is an exception, which ends the script.
\<close>

definition row_event :: "pylib \<Rightarrow> row \<Rightarrow> py_error + event option" where
  "row_event lib row =
     py_bind (resolve_timestamp lib row) (\<lambda>timestamp_ms.
       case timestamp_ms of
         None \<Rightarrow> Inr None
       | Some t \<Rightarrow>
           py_bind (resolve_notional lib row) (\<lambda>notional.
             case notional of
               None \<Rightarrow> Inr None
             | Some n \<Rightarrow>
                 if float_le_zero n then Inr None
                 else py_bind (make_event lib row t n) (\<lambda>ev. Inr (Some ev))))"

fun collect_events :: "pylib \<Rightarrow> row list \<Rightarrow> py_error + event list" where
  "collect_events lib [] = Inr []"
| "collect_events lib (row # df) =
     py_bind (row_event lib row) (\<lambda>x.
       py_bind (collect_events lib df) (\<lambda>evs.
         Inr (case x of None \<Rightarrow> evs | Some ev \<Rightarrow> ev # evs)))"

text \<open>
  \<^verbatim>\<open>events.sort(key=lambda x: x['timestamp'])\<close>: Python's sort is stable, as is \<open>sort_key\<close>.
\<close>

definition events :: "pylib \<Rightarrow> row list \<Rightarrow> py_error + event list" where
  "events lib df = py_bind (collect_events lib df) (\<lambda>evs. Inr (sort_key ev_timestamp evs))"

subsection \<open>A library instance for concrete runs\<close>

text \<open>
  Two library functions on the strings used in the concrete runs below: \<^verbatim>\<open>float\<close> on a
  string of decimal digits, and \<^verbatim>\<open>datetime.fromisoformat(s).timestamp()\<close> on a string of
  the shape \<^verbatim>\<open>YYYY-MM-DDTHH:MM:SS+HH:MM\<close>. On these strings they compute what Python
  computes; every other string is reported as not parsed, which is what Python does for
  \<^verbatim>\<open>not-a-timestamp\<close> but not for every string.
\<close>

fun nat_of_digits_from :: "nat \<Rightarrow> string \<Rightarrow> nat option" where
  "nat_of_digits_from acc [] = Some acc"
| "nat_of_digits_from acc (c # cs) =
     (case map_of (zip ''0123456789'' [0, 1, 2, 3, 4, 5, 6, 7, 8, 9]) c of
        None \<Rightarrow> None
      | Some d \<Rightarrow> nat_of_digits_from (acc * 10 + d) cs)"

definition nat_of_digits :: "string \<Rightarrow> nat option" where
  "nat_of_digits s = (if s = [] then None else nat_of_digits_from 0 s)"

definition ref_float_of_str :: "string \<Rightarrow> pyfloat option" where
  "ref_float_of_str s = map_option (\<lambda>n. Num (real n)) (nat_of_digits s)"

definition is_leap :: "nat \<Rightarrow> bool" where
  "is_leap y = (y mod 4 = 0 \<and> (y mod 100 \<noteq> 0 \<or> y mod 400 = 0))"

definition month_lengths :: "nat \<Rightarrow> nat list" where
  "month_lengths y = [31, if is_leap y then 29 else 28, 31, 30, 31, 30, 31, 31, 30, 31, 30, 31]"

definition days_in_month :: "nat \<Rightarrow> nat \<Rightarrow> nat" where
  "days_in_month y m = month_lengths y ! (m - 1)"

text \<open>The proleptic Gregorian ordinal of a date, day 1 being 0001-01-01.\<close>

definition ymd_ordinal :: "nat \<Rightarrow> nat \<Rightarrow> nat \<Rightarrow> nat" where
  "ymd_ordinal y m d =
     365 * (y - 1) + (y - 1) div 4 - (y - 1) div 100 + (y - 1) div 400
     + sum_list (take (m - 1) (month_lengths y)) + d"

definition ref_fromisoformat_timestamp :: "string \<Rightarrow> real option" where
  "ref_fromisoformat_timestamp s =
     (if length s = 25 \<and> s ! 4 = CHR ''-'' \<and> s ! 7 = CHR ''-'' \<and> s ! 10 = CHR ''T''
         \<and> s ! 13 = CHR '':'' \<and> s ! 16 = CHR '':''
         \<and> (s ! 19 = CHR ''+'' \<or> s ! 19 = CHR ''-'') \<and> s ! 22 = CHR '':''
      then
        (case (nat_of_digits (take 4 s), nat_of_digits (take 2 (drop 5 s)),
               nat_of_digits (take 2 (drop 8 s)), nat_of_digits (take 2 (drop 11 s)),
               nat_of_digits (take 2 (drop 14 s)), nat_of_digits (take 2 (drop 17 s)),
               nat_of_digits (take 2 (drop 20 s)), nat_of_digits (take 2 (drop 23 s))) of
           (Some y, Some m, Some d, Some h, Some mi, Some sec, Some oh, Some om) \<Rightarrow>
             if 1 \<le> y \<and> 1 \<le> m \<and> m \<le> 12 \<and> 1 \<le> d \<and> d \<le> days_in_month y m
                \<and> h < 24 \<and> mi < 60 \<and> sec < 60 \<and> oh < 24 \<and> om < 60
             then
               (let local_seconds =
                      (int (ymd_ordinal y m d) - 719163) * 86400
                      + int h * 3600 + int mi * 60 + int sec;
                    offset = int oh * 3600 + int om * 60
                in Some (real_of_int
                     (if s ! 19 = CHR ''+'' then local_seconds - offset
                      else local_seconds + offset)))
             else None
         | _ \<Rightarrow> None)
      else None)"





definition missing_time_row :: row where
  "missing_time_row =
     [''time'' \<mapsto> FloatV NaN, ''coin'' \<mapsto> StrV ''BTC'', ''user'' \<mapsto> StrV ''U1'',
      ''liquidated_user'' \<mapsto> StrV ''U2'', ''adl_notional'' \<mapsto> FloatV (Num 100)]"

text \<open>
  A closed library value for concrete runs: the two functions above, the product with
  1000 without rounding (which is what the float product is whenever the exact product is
  a double, as for the whole numbers of seconds used below), and fixed stand-in texts for
  the two formatting functions, on which no statement below depends.
\<close>

definition ref_lib :: pylib where
  "ref_lib = \<lparr> fromisoformat_timestamp = ref_fromisoformat_timestamp,
               float_of_str = ref_float_of_str,
               str_of_float = (\<lambda>x. ''0.0''),
               times_1000 = (\<lambda>x. Some (x * 1000)),
               local_isoformat = (\<lambda>x. Inr ''1970-01-01T00:00:00'') \<rparr>"




text \<open>The event a row contributes, if the iteration for it appends one.\<close>

definition emitted :: "pylib \<Rightarrow> row \<Rightarrow> event option" where
  "emitted lib row = (case row_event lib row of Inl e \<Rightarrow> None | Inr x \<Rightarrow> x)"

text \<open>A row whose \<^verbatim>\<open>time\<close> cell is a text that is neither a date nor a number.\<close>

definition text_time_row :: row where
  "text_time_row =
     [''time'' \<mapsto> StrV ''not-a-timestamp'', ''coin'' \<mapsto> StrV ''BTC'', ''user'' \<mapsto> StrV ''U1'',
      ''liquidated_user'' \<mapsto> StrV ''U2'', ''adl_notional'' \<mapsto> FloatV (Num 100)]"

text \<open>Three complete rows, the first two with the same timestamp, out of time order.\<close>

definition event_rows :: "row list" where
  "event_rows =
     [[''time'' \<mapsto> IntV 1696900002000, ''coin'' \<mapsto> StrV ''BTC'', ''user'' \<mapsto> StrV ''U1'',
       ''liquidated_user'' \<mapsto> StrV ''U2'', ''adl_notional'' \<mapsto> FloatV (Num 100)],
      [''time'' \<mapsto> IntV 1696900002000, ''coin'' \<mapsto> StrV ''ETH'', ''user'' \<mapsto> StrV ''U3'',
       ''liquidated_user'' \<mapsto> StrV ''U2'', ''adl_notional'' \<mapsto> FloatV (Num 50)],
      [''time'' \<mapsto> IntV 1696900001, ''coin'' \<mapsto> StrV ''SOL'', ''user'' \<mapsto> StrV ''U4'',
       ''liquidated_user'' \<mapsto> StrV ''U5'', ''adl_notional'' \<mapsto> IntV 7],
      [''time'' \<mapsto> IntV 1696900003000, ''coin'' \<mapsto> StrV ''XRP'', ''user'' \<mapsto> StrV ''U6'',
       ''liquidated_user'' \<mapsto> StrV ''U7'', ''adl_notional'' \<mapsto> FloatV (Num 0)]]"

text \<open>
  Fifty-one rows with fifty-one liquidated accounts \<open>L1\<close> to \<open>L51\<close> and fifty-one
  counterparties \<open>C1\<close> to \<open>C51\<close>, row \<open>i\<close> moving the notional \<open>i\<close> from \<open>Li\<close> to \<open>Ci\<close>: the
  totals grow along the table, so the descending sort reverses the order of the accounts.
\<close>

definition ladder_row :: "nat \<Rightarrow> adl_row" where
  "ladder_row i =
     \<lparr> row_time = 1000, row_liquidated_user = ''L'' @ str_of_nat i,
       row_user = ''C'' @ str_of_nat i, row_coin = ''BTC'',
       row_adl_notional = Num (real i) \<rparr>"

definition ladder_rows :: "adl_row list" where
  "ladder_rows =
     [ladder_row 1, ladder_row 2, ladder_row 3, ladder_row 4, ladder_row 5, ladder_row 6,
      ladder_row 7, ladder_row 8, ladder_row 9, ladder_row 10, ladder_row 11, ladder_row 12,
      ladder_row 13, ladder_row 14, ladder_row 15, ladder_row 16, ladder_row 17, ladder_row
      18, ladder_row 19, ladder_row 20, ladder_row 21, ladder_row 22, ladder_row 23,
      ladder_row 24, ladder_row 25, ladder_row 26, ladder_row 27, ladder_row 28, ladder_row
      29, ladder_row 30, ladder_row 31, ladder_row 32, ladder_row 33, ladder_row 34,
      ladder_row 35, ladder_row 36, ladder_row 37, ladder_row 38, ladder_row 39, ladder_row
      40, ladder_row 41, ladder_row 42, ladder_row 43, ladder_row 44, ladder_row 45,
      ladder_row 46, ladder_row 47, ladder_row 48, ladder_row 49, ladder_row 50, ladder_row
      51]"

section \<open>Properties of the flow export\<close>

subsection \<open>Arithmetic and dictionary lemmas\<close>

lemma time_bucket_of_div:
  "time_bucket_of t = (if 0 \<le> t then (t div 1000) * 1000 else - ((- t) div 1000) * 1000)"
proof (cases "0 \<le> t")
  case True
  then have "py_int (real_of_int t / 1000) = t div 1000"
    by (simp add: py_int_def floor_divide_of_int_eq [of t 1000, simplified])
  with True show ?thesis by (simp add: time_bucket_of_def)
next
  case False
  then have neg: "real_of_int t / 1000 < 0" by simp
  have "\<lceil>real_of_int t / 1000\<rceil> = - \<lfloor>real_of_int (- t) / 1000\<rfloor>"
    by (simp add: ceiling_def)
  also have "\<lfloor>real_of_int (- t) / 1000\<rfloor> = (- t) div 1000"
    using floor_divide_of_int_eq [of "- t" 1000] by simp
  finally show ?thesis using False neg by (simp add: time_bucket_of_def py_int_def)
qed

lemma process_row_cases:
  "process_row st row =
     (if passes_filter row
      then add_event (row_time row) (row_liquidated_user row) (row_user row) (row_coin row)
             (row_notional row) (bump_bounds (row_time row) st)
      else bump_bounds (row_time row) st)"
  by (cases "row_adl_notional row")
     (simp_all add: process_row_def passes_filter_def row_notional_def bump_bounds_def
        float_abs_def float_le_zero_def isna_def Let_def)

lemma passes_filter_iff:
  "passes_filter row \<longleftrightarrow> (\<exists>r. row_adl_notional row = Num r \<and> r \<noteq> 0)"
  by (cases "row_adl_notional row")
     (auto simp: passes_filter_def float_abs_def float_le_zero_def isna_def)

lemma row_notional_pos: "passes_filter row \<Longrightarrow> 0 < row_notional row"
  by (cases "row_adl_notional row")
     (auto simp: passes_filter_def row_notional_def float_abs_def float_le_zero_def isna_def)

lemmas flow_defs = accumulate_def init_state_def process_row_def add_event_def bucket_add_def
  new_bucket_def dict_add_def dict_add2_def dict_keys_def dict_values_def float_abs_def
  float_le_zero_def isna_def time_bucket_of_div Let_def

subsection \<open>The end-to-end scenario\<close>

text \<open>
  Claim C1. For the three rows of the scenario the pass leaves
  \<^verbatim>\<open>asset_totals = {BTC: 150, ETH: 200}\<close> and the account flows U2 to U1 of 150 and U2 to
  U3 of 200; it creates exactly the two buckets 1000000000000 and 1000000001000; and,
  when the library formats both bucket times, the bucket list of the document has event
  counts 2 and 1, in-bucket notionals 150 and 200 and cumulative notionals 150 and 350,
  and both account flows are emitted.
\<close>

theorem C1_scenario:
  assumes "utc_isoformat 1000000000 = Inr iso1"
      and "utc_isoformat 1000000001 = Inr iso2"
  shows "asset_totals (accumulate scenario_rows) = [(''BTC'', 150), (''ETH'', 200)]
     \<and> dict_keys (time_buckets (accumulate scenario_rows)) = [1000000000000, 1000000001000]
     \<and> dict_get 0 (dict_get [] (account_flows (accumulate scenario_rows)) ''U2'') ''U1'' = 150
     \<and> dict_get 0 (dict_get [] (account_flows (accumulate scenario_rows)) ''U2'') ''U3'' = 200
     \<and> (\<exists>doc. export_flow_data utc_isoformat scenario_rows = Inr doc
          \<and> map (\<lambda>b. (bs_time b, bs_eventCount b, bs_notionalInBucket b,
                       bs_cumulativeNotional b)) (doc_timeBuckets doc)
              = [(1000000000000, 2, 150, 150), (1000000001000, 1, 200, 350)]
          \<and> bs_cumulativeNotional (last (doc_timeBuckets doc)) = 350
          \<and> doc_accountFlows doc =
              [\<lparr> fe_source = ''U2'', fe_target = ''U1'', fe_notional = 150 \<rparr>,
               \<lparr> fe_source = ''U2'', fe_target = ''U3'', fe_notional = 200 \<rparr>])"
proof -
  have st: "accumulate scenario_rows =
    \<lparr> asset_flows = [(''BTC'', [(''BTC'', 150)]), (''ETH'', [(''ETH'', 200)])],
      asset_totals = [(''BTC'', 150), (''ETH'', 200)],
      liquidated_by_asset = [(''BTC'', 150), (''ETH'', 200)],
      adld_by_asset = [(''BTC'', 150), (''ETH'', 200)],
      account_flows = [(''U2'', [(''U1'', 150), (''U3'', 200)])],
      account_totals_in = [(''U1'', 150), (''U3'', 200)],
      account_totals_out = [(''U2'', 350)],
      time_buckets =
        [(1000000000000,
          \<lparr> b_assetFlows = [(''BTC'', [(''BTC'', 150)])],
            b_accountFlows = [(''U2'', [(''U1'', 150)])],
            b_liquidatedByAsset = [(''BTC'', 150)],
            b_adldByAsset = [(''BTC'', 150)], b_cumulativeNotional = 150,
            b_cumulativeLiquidated = 0, b_cumulativeAdld = 0, b_eventCount = 2 \<rparr>),
         (1000000001000,
          \<lparr> b_assetFlows = [(''ETH'', [(''ETH'', 200)])],
            b_accountFlows = [(''U2'', [(''U3'', 200)])],
            b_liquidatedByAsset = [(''ETH'', 200)],
            b_adldByAsset = [(''ETH'', 200)], b_cumulativeNotional = 200,
            b_cumulativeLiquidated = 0, b_cumulativeAdld = 0, b_eventCount = 1 \<rparr>)],
      min_timestamp = Ts 1000000000000, max_timestamp = Ts 1000000001200 \<rparr>"
    by (simp add: flow_defs scenario_rows_def)
  have tbl: "\<exists>tbl. time_buckets_list utc_isoformat (accumulate scenario_rows) = Inr tbl
     \<and> map (\<lambda>b. (bs_time b, bs_eventCount b, bs_notionalInBucket b,
                  bs_cumulativeNotional b)) tbl
         = [(1000000000000, 2, 150, 150), (1000000001000, 1, 200, 350)]
     \<and> bs_cumulativeNotional (last tbl) = 350"
    unfolding st using assms by (simp add: time_buckets_list_def dict_keys_def Let_def)
  have top: "top_accounts_set (accumulate scenario_rows) = {''U1'', ''U2'', ''U3''}"
    unfolding st
    by (auto simp: top_accounts_set_def top_liquidated_def top_counterparties_def
          sorted_by_total_desc_def)
  have edges: "account_flows_list (accumulate scenario_rows) =
      [\<lparr> fe_source = ''U2'', fe_target = ''U1'', fe_notional = 150 \<rparr>,
       \<lparr> fe_source = ''U2'', fe_target = ''U3'', fe_notional = 200 \<rparr>]"
    unfolding account_flows_list_def top unfolding st by simp
  have md: "\<exists>md. flow_metadata scenario_rows (accumulate scenario_rows) = Inr md"
    unfolding st by (simp add: flow_metadata_def)
  from tbl md edges have "\<exists>doc. export_flow_data utc_isoformat scenario_rows = Inr doc
          \<and> map (\<lambda>b. (bs_time b, bs_eventCount b, bs_notionalInBucket b,
                       bs_cumulativeNotional b)) (doc_timeBuckets doc)
              = [(1000000000000, 2, 150, 150), (1000000001000, 1, 200, 350)]
          \<and> bs_cumulativeNotional (last (doc_timeBuckets doc)) = 350
          \<and> doc_accountFlows doc =
              [\<lparr> fe_source = ''U2'', fe_target = ''U1'', fe_notional = 150 \<rparr>,
               \<lparr> fe_source = ''U2'', fe_target = ''U3'', fe_notional = 200 \<rparr>]"
    by (auto simp: export_flow_data_def Let_def)
  moreover have "asset_totals (accumulate scenario_rows) = [(''BTC'', 150), (''ETH'', 200)]"
    unfolding st by simp
  moreover have "dict_keys (time_buckets (accumulate scenario_rows)) =
      [1000000000000, 1000000001000]"
    unfolding st by (simp add: dict_keys_def)
  moreover have "dict_get 0 (dict_get [] (account_flows (accumulate scenario_rows)) ''U2'') ''U1'' = 150"
    unfolding st by simp
  moreover have "dict_get 0 (dict_get [] (account_flows (accumulate scenario_rows)) ''U2'') ''U3'' = 200"
    unfolding st by simp
  ultimately show ?thesis by blast
qed

theorem C1_scenario_witness:
  "asset_totals (accumulate scenario_rows) = [(''BTC'', 150), (''ETH'', 200)]
     \<and> dict_keys (time_buckets (accumulate scenario_rows)) = [1000000000000, 1000000001000]
     \<and> dict_get 0 (dict_get [] (account_flows (accumulate scenario_rows)) ''U2'') ''U1'' = 150
     \<and> dict_get 0 (dict_get [] (account_flows (accumulate scenario_rows)) ''U2'') ''U3'' = 200
     \<and> (\<exists>doc. export_flow_data (\<lambda>x. Inr ''2001-09-09T01:46:40+00:00'') scenario_rows = Inr doc
          \<and> map (\<lambda>b. (bs_time b, bs_eventCount b, bs_notionalInBucket b,
                       bs_cumulativeNotional b)) (doc_timeBuckets doc)
              = [(1000000000000, 2, 150, 150), (1000000001000, 1, 200, 350)]
          \<and> bs_cumulativeNotional (last (doc_timeBuckets doc)) = 350
          \<and> doc_accountFlows doc =
              [\<lparr> fe_source = ''U2'', fe_target = ''U1'', fe_notional = 150 \<rparr>,
               \<lparr> fe_source = ''U2'', fe_target = ''U3'', fe_notional = 200 \<rparr>])"
  by (rule C1_scenario [where utc_isoformat = "\<lambda>x. Inr ''2001-09-09T01:46:40+00:00''"]) simp_all

subsection \<open>Rows skipped by the notional check\<close>

lemma key_in_dict: "(k, v) \<in> set d \<Longrightarrow> k \<in> fst ` set d"
  by (rule image_eqI [where x = "(k, v)"]) simp_all

lemma keys_dict_upd:
  "dict_keys (dict_upd dflt k f d) =
     (if k \<in> set (dict_keys d) then dict_keys d else dict_keys d @ [k])"
  by (induction d) (auto simp: dict_keys_def dest: key_in_dict)

lemma set_keys_dict_upd:
  "set (dict_keys (dict_upd dflt k f d)) = insert k (set (dict_keys d))"
  by (simp add: keys_dict_upd insert_absorb)

lemma bucket_keys_process_row:
  "set (dict_keys (time_buckets (process_row st row))) =
     (if passes_filter row then {time_bucket_of (row_time row)} else {}) \<union>
     set (dict_keys (time_buckets st))"
  by (simp add: process_row_cases add_event_def bump_bounds_def set_keys_dict_upd)

lemma aggregates_bump_bounds: "aggregates (bump_bounds t st) = aggregates st"
  by (simp add: aggregates_def bump_bounds_def)

lemma aggregates_add_event:
  "aggregates st = aggregates st' \<Longrightarrow>
   aggregates (add_event t l u a n st) = aggregates (add_event t l u a n st')"
  unfolding aggregates_def add_event_def by simp

lemma aggregates_process_row:
  assumes "aggregates st = aggregates st'"
  shows "aggregates (process_row st row) = aggregates (process_row st' row)"
proof -
  have bb: "aggregates (bump_bounds (row_time row) st) = aggregates (bump_bounds (row_time row) st')"
    using assms by (simp only: aggregates_bump_bounds)
  show ?thesis
  proof (cases "passes_filter row")
    case True
    then show ?thesis
      by (simp only: process_row_cases if_True) (rule aggregates_add_event [OF bb])
  next
    case False
    then show ?thesis by (simp only: process_row_cases if_False bb)
  qed
qed

lemma aggregates_foldl:
  "aggregates st = aggregates st' \<Longrightarrow>
   aggregates (foldl process_row st df) = aggregates (foldl process_row st' df)"
proof (induction df arbitrary: st st')
  case Nil
  then show ?case by simp
next
  case (Cons row df)
  have "aggregates (process_row st row) = aggregates (process_row st' row)"
    using Cons.prems by (rule aggregates_process_row)
  then have "aggregates (foldl process_row (process_row st row) df) =
             aggregates (foldl process_row (process_row st' row) df)"
    by (rule Cons.IH)
  then show ?case by simp
qed

lemma aggregates_skipped:
  "\<not> passes_filter row \<Longrightarrow> aggregates (process_row st row) = aggregates st"
  by (simp add: process_row_cases aggregates_bump_bounds)

lemma bucket_keys_foldl:
  "set (dict_keys (time_buckets (foldl process_row st df))) =
     set (dict_keys (time_buckets st)) \<union>
     (\<lambda>row. time_bucket_of (row_time row)) ` {row \<in> set df. passes_filter row}"
proof (induction df arbitrary: st)
  case Nil
  then show ?case by simp
next
  case (Cons row df)
  show ?case
    by (cases "passes_filter row") (auto simp: Cons.IH bucket_keys_process_row)
qed

lemma bucket_keys_accumulate:
  "set (dict_keys (time_buckets (accumulate df))) =
     (\<lambda>row. time_bucket_of (row_time row)) ` {row \<in> set df. passes_filter row}"
  by (simp add: accumulate_def bucket_keys_foldl) (simp add: init_state_def dict_keys_def)

lemma skipped_row_excluded:
  assumes "row_adl_notional row = Num 0 \<or> row_adl_notional row = NaN"
  shows "aggregates (process_row st row) = aggregates st
     \<and> aggregates (accumulate (before @ row # after)) = aggregates (accumulate (before @ after))
     \<and> ((\<forall>other \<in> set before \<union> set after.
            time_bucket_of (row_time other) \<noteq> time_bucket_of (row_time row))
          \<longrightarrow> time_bucket_of (row_time row)
                \<notin> set (dict_keys (time_buckets (accumulate (before @ row # after)))))"
proof -
  from assms have skip: "\<not> passes_filter row"
    by (auto simp: passes_filter_iff)
  have one: "aggregates (process_row st' row) = aggregates st'" for st'
    using skip by (rule aggregates_skipped)
  have "aggregates (foldl process_row (process_row (foldl process_row init_state before) row) after)
      = aggregates (foldl process_row (foldl process_row init_state before) after)"
    by (rule aggregates_foldl) (rule one)
  then have two: "aggregates (accumulate (before @ row # after)) =
      aggregates (accumulate (before @ after))"
    by (simp add: accumulate_def)
  have three: "time_bucket_of (row_time row)
      \<notin> set (dict_keys (time_buckets (accumulate (before @ row # after))))"
    if "\<forall>other \<in> set before \<union> set after.
          time_bucket_of (row_time other) \<noteq> time_bucket_of (row_time row)"
    using that skip by (auto simp: bucket_keys_accumulate)
  from one two three show ?thesis by blast
qed

lemma negative_row_aggregated:
  assumes "row_adl_notional row = Num n" "n < 0"
  shows "process_row st row =
           add_event (row_time row) (row_liquidated_user row) (row_user row) (row_coin row)
             (- n) (bump_bounds (row_time row) st)"
proof -
  from assms have "passes_filter row" by (simp add: passes_filter_iff)
  moreover from assms have "row_notional row = - n"
    by (simp add: row_notional_def float_abs_def)
  ultimately show ?thesis by (simp add: process_row_cases)
qed

text \<open>
  Claim C2, as the code has it. A row whose \<^verbatim>\<open>adl_notional\<close> is zero or missing (NaN)
  changes none of the aggregates: not in the step that processes it, and not in the
  result of the whole pass, which is the same as without the row. If no other row falls
  into its second, the pass creates no bucket for that second. A row with a negative
  \<^verbatim>\<open>adl_notional\<close> is not skipped: it is aggregated like any other event, with the
  absolute value as its notional.
\<close>

theorem C2_zero_or_missing_excluded:
  "(row_adl_notional row = Num 0 \<or> row_adl_notional row = NaN \<longrightarrow>
      aggregates (process_row st row) = aggregates st
      \<and> aggregates (accumulate (before @ row # after)) = aggregates (accumulate (before @ after))
      \<and> ((\<forall>other \<in> set before \<union> set after.
             time_bucket_of (row_time other) \<noteq> time_bucket_of (row_time row))
           \<longrightarrow> time_bucket_of (row_time row)
                 \<notin> set (dict_keys (time_buckets (accumulate (before @ row # after))))))
   \<and> (row_adl_notional row = Num n \<longrightarrow> n < 0 \<longrightarrow>
        process_row st row =
          add_event (row_time row) (row_liquidated_user row) (row_user row) (row_coin row)
            (- n) (bump_bounds (row_time row) st))"
  using skipped_row_excluded [of row st before after] negative_row_aggregated [of row n st]
  by blast

theorem C2_zero_or_missing_excluded_witness:
  "row_adl_notional zero_row = Num 0
   \<and> aggregates (accumulate (scenario_rows @ zero_row # [missing_row])) =
       aggregates (accumulate (scenario_rows @ [missing_row]))
   \<and> time_bucket_of (row_time zero_row)
        \<notin> set (dict_keys (time_buckets (accumulate (scenario_rows @ zero_row # [missing_row]))))
   \<and> row_adl_notional negative_row = Num (- 5)
   \<and> process_row init_state negative_row =
        add_event 5000 ''U2'' ''U1'' ''BTC'' 5 (bump_bounds 5000 init_state)"
proof -
  have z: "row_adl_notional zero_row = Num 0 \<or> row_adl_notional zero_row = NaN"
    by (simp add: zero_row_def)
  have alone: "\<forall>other \<in> set scenario_rows \<union> set [missing_row].
      time_bucket_of (row_time other) \<noteq> time_bucket_of (row_time zero_row)"
    by (simp add: scenario_rows_def missing_row_def zero_row_def time_bucket_of_div)
  note excl = C2_zero_or_missing_excluded [where row = zero_row and st = init_state
      and before = scenario_rows and after = "[missing_row]", THEN conjunct1, rule_format, OF z]
  have two: "aggregates (accumulate (scenario_rows @ zero_row # [missing_row])) =
       aggregates (accumulate (scenario_rows @ [missing_row]))"
    using excl by (elim conjE)
  have "(\<forall>other \<in> set scenario_rows \<union> set [missing_row].
             time_bucket_of (row_time other) \<noteq> time_bucket_of (row_time zero_row))
        \<longrightarrow> time_bucket_of (row_time zero_row)
              \<notin> set (dict_keys (time_buckets (accumulate (scenario_rows @ zero_row # [missing_row]))))"
    using excl by (elim conjE)
  with alone have three: "time_bucket_of (row_time zero_row)
        \<notin> set (dict_keys (time_buckets (accumulate (scenario_rows @ zero_row # [missing_row]))))"
    by (rule rev_mp)
  have neg: "row_adl_notional negative_row = Num (- 5)" by (simp add: negative_row_def)
  have "process_row init_state negative_row =
      add_event (row_time negative_row) (row_liquidated_user negative_row)
        (row_user negative_row) (row_coin negative_row) (- (- 5))
        (bump_bounds (row_time negative_row) init_state)"
    by (rule C2_zero_or_missing_excluded [where row = negative_row and st = init_state,
          THEN conjunct2, rule_format, OF neg]) simp
  then have four: "process_row init_state negative_row =
        add_event 5000 ''U2'' ''U1'' ''BTC'' 5 (bump_bounds 5000 init_state)"
    by (simp add: negative_row_def)
  from two three neg four show ?thesis
    by (simp add: zero_row_def)
qed

text \<open>
  Claim C2 as stated fails for a negative notional: the row with \<^verbatim>\<open>adl_notional = -5\<close>
  is aggregated with notional 5 and creates the bucket of its second.
\<close>

theorem C2_counterexample:
  "float_le_zero (row_adl_notional negative_row)
   \<and> asset_totals (accumulate [negative_row]) = [(''BTC'', 5)]
   \<and> account_flows (accumulate [negative_row]) = [(''U2'', [(''U1'', 5)])]
   \<and> dict_keys (time_buckets (accumulate [negative_row])) = [5000]"
  by (simp add: flow_defs negative_row_def)

subsection \<open>The bucket list: prefix sums and order\<close>

lemma dict_get_cases:
  "dict_get dflt d k = dflt \<or> (k, dict_get dflt d k) \<in> set d"
  by (induction d) (auto split: if_splits)

lemma dict_upd_values:
  "(k', v) \<in> set (dict_upd dflt k f d) \<Longrightarrow>
     (k', v) \<in> set d \<or> (k' = k \<and> (v = f dflt \<or> (\<exists>w. (k, w) \<in> set d \<and> v = f w)))"
  by (induction d) (auto split: if_splits)

lemma buckets_ok_upd:
  assumes "buckets_ok tb" "0 \<le> n"
  shows "buckets_ok (dict_upd new_bucket k (bucket_add l u a n) tb)"
  unfolding buckets_ok_def
proof (clarify)
  fix k' b assume "(k', b) \<in> set (dict_upd new_bucket k (bucket_add l u a n) tb)"
  from dict_upd_values [OF this] assms show "0 \<le> b_cumulativeNotional b"
    by (auto simp: buckets_ok_def bucket_add_def new_bucket_def)
qed

lemma buckets_ok_process_row:
  assumes "buckets_ok (time_buckets st)"
  shows "buckets_ok (time_buckets (process_row st row))"
proof (cases "passes_filter row")
  case True
  then have "0 \<le> row_notional row"
    using row_notional_pos [of row] by simp
  with assms True show ?thesis
    by (simp add: process_row_cases add_event_def bump_bounds_def buckets_ok_upd)
next
  case False
  with assms show ?thesis
    by (simp add: process_row_cases bump_bounds_def)
qed

lemma buckets_ok_foldl:
  "buckets_ok (time_buckets st) \<Longrightarrow> buckets_ok (time_buckets (foldl process_row st df))"
  by (induction df arbitrary: st) (simp_all add: buckets_ok_process_row)

lemma buckets_ok_accumulate: "buckets_ok (time_buckets (accumulate df))"
  unfolding accumulate_def
  by (rule buckets_ok_foldl) (simp add: init_state_def buckets_ok_def)

lemma buckets_ok_get:
  "buckets_ok tb \<Longrightarrow> 0 \<le> b_cumulativeNotional (dict_get new_bucket tb k)"
  using dict_get_cases [of new_bucket tb k]
  by (auto simp: buckets_ok_def new_bucket_def)

lemma bucket_summaries_shape:
  "bucket_summaries utc_isoformat tb c cl ca ks = Inr tbl \<Longrightarrow>
     map bs_time tbl = ks \<and>
     map bs_notionalInBucket tbl = map (\<lambda>k. b_cumulativeNotional (dict_get new_bucket tb k)) ks \<and>
     map bs_eventCount tbl = map (\<lambda>k. b_eventCount (dict_get new_bucket tb k)) ks"
proof (induction ks arbitrary: c cl ca tbl)
  case Nil
  then show ?case by simp
next
  case (Cons k ks)
  from Cons.prems show ?case
    by (auto simp: Let_def split: sum.splits dest!: Cons.IH)
qed

lemma bucket_summaries_prefix:
  "bucket_summaries utc_isoformat tb c cl ca ks = Inr tbl \<Longrightarrow> i < length tbl \<Longrightarrow>
     bs_cumulativeNotional (tbl ! i) = c + sum_list (map bs_notionalInBucket (take (Suc i) tbl))"
proof (induction ks arbitrary: c cl ca tbl i)
  case Nil
  then show ?case by simp
next
  case (Cons k ks)
  let ?b = "dict_get new_bucket tb k"
  from Cons.prems(1) obtain hd_s out where
    tbl: "tbl = hd_s # out"
    and hd: "bs_cumulativeNotional hd_s = c + b_cumulativeNotional ?b"
            "bs_notionalInBucket hd_s = b_cumulativeNotional ?b"
    and rest: "bucket_summaries utc_isoformat tb (c + b_cumulativeNotional ?b)
                 (cl + sum_list (dict_values (b_liquidatedByAsset ?b)))
                 (ca + sum_list (dict_values (b_adldByAsset ?b))) ks = Inr out"
    by (auto simp: Let_def split: sum.splits)
  show ?case
  proof (cases i)
    case 0
    with tbl hd show ?thesis by simp
  next
    case (Suc j)
    with Cons.prems(2) tbl have "j < length out" by simp
    from Cons.IH [OF rest this] Suc tbl hd show ?thesis by simp
  qed
qed

lemma bucket_summaries_mono:
  "bucket_summaries utc_isoformat tb c cl ca ks = Inr tbl \<Longrightarrow> buckets_ok tb \<Longrightarrow>
     sorted (map bs_cumulativeNotional tbl) \<and> (\<forall>s \<in> set tbl. c \<le> bs_cumulativeNotional s)"
proof (induction ks arbitrary: c cl ca tbl)
  case Nil
  then show ?case by simp
next
  case (Cons k ks)
  let ?b = "dict_get new_bucket tb k"
  from Cons.prems(1) obtain hd_s out where
    tbl: "tbl = hd_s # out"
    and hd: "bs_cumulativeNotional hd_s = c + b_cumulativeNotional ?b"
    and rest: "bucket_summaries utc_isoformat tb (c + b_cumulativeNotional ?b)
                 (cl + sum_list (dict_values (b_liquidatedByAsset ?b)))
                 (ca + sum_list (dict_values (b_adldByAsset ?b))) ks = Inr out"
    by (auto simp: Let_def split: sum.splits)
  have nonneg: "0 \<le> b_cumulativeNotional ?b"
    using Cons.prems(2) by (rule buckets_ok_get)
  from Cons.IH [OF rest Cons.prems(2)]
  have "sorted (map bs_cumulativeNotional out)"
    and "\<forall>s \<in> set out. c + b_cumulativeNotional ?b \<le> bs_cumulativeNotional s"
    by simp_all
  with tbl hd nonneg show ?case by auto
qed

lemma export_flow_data_Inr:
  assumes "export_flow_data utc_isoformat df = Inr doc"
  shows "time_buckets_list utc_isoformat (accumulate df) = Inr (doc_timeBuckets doc)"
    and "flow_metadata df (accumulate df) = Inr (doc_metadata doc)"
    and "doc_accountFlows doc = account_flows_list (accumulate df)"
    and "doc_topLiquidated doc = top_liquidated (accumulate df)"
    and "doc_topCounterparties doc = top_counterparties (accumulate df)"
  using assms by (auto simp: export_flow_data_def Let_def split: sum.splits)

lemma distinct_keys_dict_upd:
  "distinct (dict_keys d) \<Longrightarrow> distinct (dict_keys (dict_upd dflt k f d))"
  by (simp add: keys_dict_upd)

lemma distinct_bucket_keys_process_row:
  "distinct (dict_keys (time_buckets st)) \<Longrightarrow>
   distinct (dict_keys (time_buckets (process_row st row)))"
  by (simp add: process_row_cases add_event_def bump_bounds_def distinct_keys_dict_upd)

lemma distinct_bucket_keys_foldl:
  "distinct (dict_keys (time_buckets st)) \<Longrightarrow>
   distinct (dict_keys (time_buckets (foldl process_row st df)))"
  by (induction df arbitrary: st) (simp_all add: distinct_bucket_keys_process_row)

lemma distinct_bucket_keys: "distinct (dict_keys (time_buckets (accumulate df)))"
  unfolding accumulate_def
  by (rule distinct_bucket_keys_foldl) (simp add: init_state_def dict_keys_def)


subsection \<open>When the export returns a document\<close>

lemma bucket_summaries_returns:
  "\<forall>k \<in> set ks. \<exists>s. utc_isoformat (real_of_int k / 1000) = Inr s \<Longrightarrow>
     \<exists>tbl. bucket_summaries utc_isoformat tb c cl ca ks = Inr tbl"
proof (induction ks arbitrary: c cl ca)
  case Nil
  then show ?case by simp
next
  case (Cons k ks)
  from Cons.prems obtain s where s: "utc_isoformat (real_of_int k / 1000) = Inr s"
    by auto
  let ?b = "dict_get new_bucket tb k"
  from Cons.prems have "\<forall>k \<in> set ks. \<exists>s. utc_isoformat (real_of_int k / 1000) = Inr s"
    by simp
  from Cons.IH [OF this] obtain out where
    "bucket_summaries utc_isoformat tb (c + b_cumulativeNotional ?b)
       (cl + sum_list (dict_values (b_liquidatedByAsset ?b)))
       (ca + sum_list (dict_values (b_adldByAsset ?b))) ks = Inr out"
    by blast
  with s show ?case by (simp add: Let_def)
qed

lemma min_timestamp_process_row:
  "min_timestamp (process_row st row) = py_min (min_timestamp st) (row_time row)"
  by (simp add: process_row_cases add_event_def bump_bounds_def)

lemma max_timestamp_process_row:
  "max_timestamp (process_row st row) = py_max (max_timestamp st) (row_time row)"
  by (simp add: process_row_cases add_event_def bump_bounds_def)

lemma min_timestamp_foldl:
  "min_timestamp (foldl process_row st df) = foldl py_min (min_timestamp st) (map row_time df)"
  by (induction df arbitrary: st) (simp_all add: min_timestamp_process_row)

lemma max_timestamp_foldl:
  "max_timestamp (foldl process_row st df) = foldl py_max (max_timestamp st) (map row_time df)"
  by (induction df arbitrary: st) (simp_all add: max_timestamp_process_row)

lemma foldl_py_min_Ts: "foldl py_min (Ts m) ts = Ts (Min (set (m # ts)))"
proof -
  have "foldl py_min (Ts m) ts = Ts (fold min ts m)"
    by (induction ts arbitrary: m) (simp_all add: min.commute)
  then show ?thesis by (simp only: Min.set_eq_fold)
qed

lemma foldl_py_max_Ts: "foldl py_max (Ts m) ts = Ts (Max (set (m # ts)))"
proof -
  have "foldl py_max (Ts m) ts = Ts (fold max ts m)"
    by (induction ts arbitrary: m) (simp_all add: max.commute)
  then show ?thesis by (simp only: Max.set_eq_fold)
qed

lemma bounds_accumulate:
  assumes "df \<noteq> []"
  shows "min_timestamp (accumulate df) = Ts (Min (row_time ` set df))"
    and "max_timestamp (accumulate df) = Ts (Max (row_time ` set df))"
proof -
  from assms obtain row rest where df: "df = row # rest" by (cases df) auto
  show "min_timestamp (accumulate df) = Ts (Min (row_time ` set df))"
    unfolding df accumulate_def min_timestamp_foldl
    by (simp add: init_state_def foldl_py_min_Ts)
  show "max_timestamp (accumulate df) = Ts (Max (row_time ` set df))"
    unfolding df accumulate_def max_timestamp_foldl
    by (simp add: init_state_def foldl_py_max_Ts)
qed

lemma bounds_accumulate_empty:
  "min_timestamp (accumulate []) = PosInf" "max_timestamp (accumulate []) = NegInf"
  by (simp_all add: accumulate_def init_state_def)

lemma flow_metadata_returns:
  "df \<noteq> [] \<Longrightarrow> \<exists>md. flow_metadata df (accumulate df) = Inr md"
  by (simp add: flow_metadata_def bounds_accumulate)

lemma export_flow_data_returns:
  assumes "df \<noteq> []"
      and "\<forall>k \<in> set (dict_keys (time_buckets (accumulate df))).
             \<exists>s. utc_isoformat (real_of_int k / 1000) = Inr s"
  shows "\<exists>doc. export_flow_data utc_isoformat df = Inr doc"
proof -
  from assms(2) have "\<forall>k \<in> set (sort (dict_keys (time_buckets (accumulate df)))).
        \<exists>s. utc_isoformat (real_of_int k / 1000) = Inr s"
    by simp
  from bucket_summaries_returns [OF this]
  obtain tbl where "time_buckets_list utc_isoformat (accumulate df) = Inr tbl"
    unfolding time_buckets_list_def by blast
  moreover from flow_metadata_returns [OF assms(1)]
  obtain md where "flow_metadata df (accumulate df) = Inr md" by blast
  ultimately show ?thesis by (simp add: export_flow_data_def Let_def)
qed

lemma export_flow_data_empty: "export_flow_data utc_isoformat [] = Inl OverflowError"
  by (simp add: export_flow_data_def time_buckets_list_def flow_metadata_def accumulate_def
        init_state_def dict_keys_def)

lemma flow_metadata_fields:
  assumes "flow_metadata df st = Inr md"
  shows "md_eventCount md = length df"
    and "min_timestamp st = Ts (md_start md)"
    and "max_timestamp st = Ts (md_end md)"
proof -
  from assms obtain a b where ab: "min_timestamp st = Ts a" "max_timestamp st = Ts b"
    by (cases "min_timestamp st"; cases "max_timestamp st")
       (simp_all add: flow_metadata_def)
  with assms have "md = \<lparr> md_eventCount = length df, md_start = a, md_end = b,
      md_durationMinutes = real_of_int (b - a) / (60 * 1000),
      md_totalNotionalUsd = sum_list (dict_values (asset_totals st)),
      md_totalLiquidatedNotional = sum_list (dict_values (liquidated_by_asset st)),
      md_totalAdldNotional = sum_list (dict_values (adld_by_asset st)),
      md_uniqueAssets = length (asset_totals st),
      md_uniqueAccounts = card (set (dict_keys (account_totals_in st)) \<union>
                                set (dict_keys (account_totals_out st))) \<rparr>"
    by (simp add: flow_metadata_def)
  then have "md_eventCount md = length df" "md_start md = a" "md_end md = b"
    by simp_all
  with ab show "md_eventCount md = length df"
    and "min_timestamp st = Ts (md_start md)"
    and "max_timestamp st = Ts (md_end md)"
    by simp_all
qed

lemma mixed_export:
  "\<exists>doc. export_flow_data (\<lambda>x. Inr ''2001-09-09T01:46:40+00:00'') mixed_rows = Inr doc"
  by (rule export_flow_data_returns) (simp_all add: mixed_rows_def)


lemma mixed_bucket_keys:
  "dict_keys (time_buckets (accumulate mixed_rows)) = [1000000000000, 1000000001000]"
  by (simp add: flow_defs mixed_rows_def scenario_rows_def missing_row_def zero_row_def)

text \<open>
  Claim C3. In the bucket list of the flow document, the cumulative notional of bucket
  \<open>i\<close> is the sum of the in-bucket notionals of buckets 0 to \<open>i\<close>, the cumulative
  notionals never decrease along the list, and the list is in ascending order of the
  bucket keys, which are distinct.
\<close>

theorem C3_prefix_sums:
  assumes "export_flow_data utc_isoformat df = Inr doc"
  shows "(\<forall>i < length (doc_timeBuckets doc).
            bs_cumulativeNotional (doc_timeBuckets doc ! i) =
              sum_list (map bs_notionalInBucket (take (Suc i) (doc_timeBuckets doc))))
     \<and> sorted (map bs_cumulativeNotional (doc_timeBuckets doc))
     \<and> sorted (map bs_time (doc_timeBuckets doc))
     \<and> distinct (map bs_time (doc_timeBuckets doc))"
proof -
  let ?tbl = "doc_timeBuckets doc"
  let ?tb = "time_buckets (accumulate df)"
  from export_flow_data_Inr(1) [OF assms]
  have run: "bucket_summaries utc_isoformat ?tb 0 0 0 (sort (dict_keys ?tb)) = Inr ?tbl"
    by (simp add: time_buckets_list_def)
  have "bs_cumulativeNotional (?tbl ! i) =
          sum_list (map bs_notionalInBucket (take (Suc i) ?tbl))"
    if "i < length ?tbl" for i
    using bucket_summaries_prefix [OF run that] by simp
  moreover have "sorted (map bs_cumulativeNotional ?tbl)"
    using bucket_summaries_mono [OF run buckets_ok_accumulate] by simp
  moreover have keys: "map bs_time ?tbl = sort (dict_keys ?tb)"
    using bucket_summaries_shape [OF run] by simp
  moreover have "distinct (sort (dict_keys ?tb))"
    using distinct_bucket_keys by simp
  ultimately show ?thesis by simp
qed

theorem C3_prefix_sums_witness:
  "\<exists>doc. export_flow_data (\<lambda>x. Inr ''2001-09-09T01:46:40+00:00'') mixed_rows = Inr doc
     \<and> length (doc_timeBuckets doc) = 2
     \<and> bs_cumulativeNotional (doc_timeBuckets doc ! 1) =
           sum_list (map bs_notionalInBucket (take 2 (doc_timeBuckets doc)))
     \<and> sorted (map bs_cumulativeNotional (doc_timeBuckets doc))
     \<and> sorted (map bs_time (doc_timeBuckets doc))
     \<and> distinct (map bs_time (doc_timeBuckets doc))"
proof -
  from mixed_export obtain doc where
    doc: "export_flow_data (\<lambda>x. Inr ''2001-09-09T01:46:40+00:00'') mixed_rows = Inr doc"
    by blast
  from export_flow_data_Inr(1) [OF doc]
  have "map bs_time (doc_timeBuckets doc) = sort (dict_keys (time_buckets (accumulate mixed_rows)))"
    unfolding time_buckets_list_def by (rule bucket_summaries_shape [THEN conjunct1])
  then have "length (map bs_time (doc_timeBuckets doc)) = 2"
    by (simp only: mixed_bucket_keys length_sort) simp
  then have len: "length (doc_timeBuckets doc) = 2" by simp
  from C3_prefix_sums [OF doc] len doc show ?thesis
    by (auto simp: numeral_2_eq_2)
qed

subsection \<open>The reported time range\<close>

text \<open>
  Claim C9. The pass keeps the minimum and the maximum of the timestamps of all rows,
  also of the rows the notional check skips, and the document reports them as the start
  and the end of its time range. (A document exists only for a non-empty table.)
\<close>

theorem C9_time_range:
  assumes "export_flow_data utc_isoformat df = Inr doc"
  shows "df \<noteq> []
     \<and> min_timestamp (accumulate df) = Ts (Min (row_time ` set df))
     \<and> max_timestamp (accumulate df) = Ts (Max (row_time ` set df))
     \<and> md_start (doc_metadata doc) = Min (row_time ` set df)
     \<and> md_end (doc_metadata doc) = Max (row_time ` set df)"
proof -
  from assms have ne: "df \<noteq> []"
    by (auto simp: export_flow_data_empty)
  from flow_metadata_fields(2,3) [OF export_flow_data_Inr(2) [OF assms]] bounds_accumulate [OF ne]
  have "md_start (doc_metadata doc) = Min (row_time ` set df)"
   and "md_end (doc_metadata doc) = Max (row_time ` set df)"
    by simp_all
  with ne bounds_accumulate [OF ne] show ?thesis by simp
qed

theorem C9_time_range_witness:
  "\<exists>doc. export_flow_data (\<lambda>x. Inr ''2001-09-09T01:46:40+00:00'') mixed_rows = Inr doc
     \<and> \<not> passes_filter missing_row \<and> row_time missing_row = 900
     \<and> md_start (doc_metadata doc) = 900
     \<and> md_end (doc_metadata doc) = 1000000001200"
proof -
  from mixed_export obtain doc where
    doc: "export_flow_data (\<lambda>x. Inr ''2001-09-09T01:46:40+00:00'') mixed_rows = Inr doc"
    by blast
  have "Min (row_time ` set mixed_rows) = 900" "Max (row_time ` set mixed_rows) = 1000000001200"
    by (simp_all add: mixed_rows_def scenario_rows_def missing_row_def zero_row_def)
  with C9_time_range [OF doc] doc show ?thesis
    by (auto simp: passes_filter_iff missing_row_def)
qed

subsection \<open>Event counts\<close>

lemma sum_counts_dict_upd:
  assumes "\<And>v. g (f v) = g v + 1" and "g dflt = 0"
  shows "sum_list (map (\<lambda>(k, v). g v) (dict_upd dflt k f d)) =
         sum_list (map (\<lambda>(k, v). g v) d) + (1::nat)"
  using assms by (induction d) auto

lemma event_counts_process_row:
  "sum_list (map (\<lambda>(k, b). b_eventCount b) (time_buckets (process_row st row))) =
     sum_list (map (\<lambda>(k, b). b_eventCount b) (time_buckets st)) +
     (if passes_filter row then 1 else 0)"
proof (cases "passes_filter row")
  case True
  have "sum_list (map (\<lambda>(k, b). b_eventCount b)
          (dict_upd new_bucket (time_bucket_of (row_time row))
             (bucket_add (row_liquidated_user row) (row_user row) (row_coin row)
                (row_notional row)) (time_buckets st))) =
        sum_list (map (\<lambda>(k, b). b_eventCount b) (time_buckets st)) + 1"
    by (rule sum_counts_dict_upd) (simp_all add: bucket_add_def new_bucket_def)
  with True show ?thesis
    by (simp add: process_row_cases add_event_def bump_bounds_def)
next
  case False
  then show ?thesis by (simp add: process_row_cases bump_bounds_def)
qed

lemma event_counts_foldl:
  "sum_list (map (\<lambda>(k, b). b_eventCount b) (time_buckets (foldl process_row st df))) =
     sum_list (map (\<lambda>(k, b). b_eventCount b) (time_buckets st)) +
     length (filter passes_filter df)"
  by (induction df arbitrary: st) (simp_all add: event_counts_process_row)

lemma event_counts_accumulate:
  "sum_list (map (\<lambda>(k, b). b_eventCount b) (time_buckets (accumulate df))) =
     length (filter passes_filter df)"
  unfolding accumulate_def event_counts_foldl by (simp add: init_state_def)

lemma map_dict_get_keys:
  "distinct (dict_keys d) \<Longrightarrow> map (dict_get dflt d) (dict_keys d) = dict_values d"
proof (induction d)
  case Nil
  then show ?case by (simp add: dict_keys_def dict_values_def)
next
  case (Cons p d)
  obtain k v where p: "p = (k, v)" by (cases p)
  from Cons.prems p have notin: "k \<notin> set (dict_keys d)" and dist: "distinct (dict_keys d)"
    by (simp_all add: dict_keys_def)
  have "map (dict_get dflt ((k, v) # d)) (dict_keys d) = map (dict_get dflt d) (dict_keys d)"
    using notin by (intro map_cong) auto
  with Cons.IH [OF dist] p show ?case
    by (simp add: dict_keys_def dict_values_def)
qed

lemma sum_list_map_insort:
  "sum_list (map f (insort x xs)) = f x + sum_list (map f xs)" for f :: "'a::linorder \<Rightarrow> nat"
  by (induction xs) auto

lemma sum_list_map_sort:
  "sum_list (map f (sort xs)) = sum_list (map f xs)" for f :: "'a::linorder \<Rightarrow> nat"
  by (induction xs) (simp_all add: sum_list_map_insort)

lemma bucket_list_event_counts:
  assumes "time_buckets_list utc_isoformat (accumulate df) = Inr tbl"
  shows "sum_list (map bs_eventCount tbl) = length (filter passes_filter df)"
proof -
  let ?tb = "time_buckets (accumulate df)"
  let ?g = "\<lambda>k. b_eventCount (dict_get new_bucket ?tb k)"
  from assms have "map bs_eventCount tbl = map ?g (sort (dict_keys ?tb))"
    unfolding time_buckets_list_def by (simp add: bucket_summaries_shape)
  then have "sum_list (map bs_eventCount tbl) = sum_list (map ?g (dict_keys ?tb))"
    by (simp only: sum_list_map_sort)
  also have "map ?g (dict_keys ?tb) = map b_eventCount (map (dict_get new_bucket ?tb) (dict_keys ?tb))"
    by simp
  also have "\<dots> = map b_eventCount (dict_values ?tb)"
    by (simp only: map_dict_get_keys [OF distinct_bucket_keys])
  also have "\<dots> = map (\<lambda>(k, b). b_eventCount b) ?tb"
    by (simp add: dict_values_def case_prod_unfold)
  finally show ?thesis by (simp only: event_counts_accumulate)
qed

text \<open>
  Claim C10. \<^verbatim>\<open>metadata.eventCount\<close> is the number of rows of the input table, while the
  event counts of the buckets add up to the number of rows that passed the notional
  check; so with a zero-notional row in the input the former is strictly larger.
\<close>

theorem C10_event_count:
  assumes "export_flow_data utc_isoformat df = Inr doc"
  shows "md_eventCount (doc_metadata doc) = length df
     \<and> sum_list (map bs_eventCount (doc_timeBuckets doc)) = length (filter passes_filter df)
     \<and> ((\<exists>row \<in> set df. row_adl_notional row = Num 0)
          \<longrightarrow> sum_list (map bs_eventCount (doc_timeBuckets doc))
                < md_eventCount (doc_metadata doc))"
proof -
  have total: "md_eventCount (doc_metadata doc) = length df"
    by (rule flow_metadata_fields(1) [OF export_flow_data_Inr(2) [OF assms]])
  have counted: "sum_list (map bs_eventCount (doc_timeBuckets doc)) =
      length (filter passes_filter df)"
    by (rule bucket_list_event_counts [OF export_flow_data_Inr(1) [OF assms]])
  have "length (filter passes_filter df) < length df"
    if "\<exists>row \<in> set df. row_adl_notional row = Num 0"
  proof -
    from that obtain row where "row \<in> set df" "\<not> passes_filter row"
      by (auto simp: passes_filter_iff)
    then show ?thesis by (rule length_filter_less)
  qed
  with total counted show ?thesis by simp
qed

theorem C10_event_count_witness:
  "\<exists>doc. export_flow_data (\<lambda>x. Inr ''2001-09-09T01:46:40+00:00'') mixed_rows = Inr doc
     \<and> zero_row \<in> set mixed_rows \<and> row_adl_notional zero_row = Num 0
     \<and> md_eventCount (doc_metadata doc) = 5
     \<and> sum_list (map bs_eventCount (doc_timeBuckets doc)) = 3"
proof -
  from mixed_export obtain doc where
    doc: "export_flow_data (\<lambda>x. Inr ''2001-09-09T01:46:40+00:00'') mixed_rows = Inr doc"
    by blast
  have "length mixed_rows = 5" "length (filter passes_filter mixed_rows) = 3"
    by (simp_all add: mixed_rows_def scenario_rows_def missing_row_def zero_row_def
          passes_filter_iff)
  with C10_event_count [OF doc] doc show ?thesis
    by (simp add: mixed_rows_def zero_row_def)
qed

subsection \<open>Account flow edges and the top accounts\<close>

lemma account_flows_list_endpoints:
  assumes "e \<in> set (account_flows_list st)"
  shows "fe_source e \<in> top_accounts_set st" and "fe_target e \<in> top_accounts_set st"
  using assms by (auto simp: account_flows_list_def split: if_splits)

lemma top_accounts_set_doc:
  assumes "export_flow_data utc_isoformat df = Inr doc"
  shows "top_accounts_set (accumulate df) =
           fst ` set (doc_topLiquidated doc) \<union> fst ` set (doc_topCounterparties doc)"
  by (simp add: top_accounts_set_def export_flow_data_Inr(4,5) [OF assms])

lemma top_lists_length:
  assumes "export_flow_data utc_isoformat df = Inr doc"
  shows "length (doc_topLiquidated doc) \<le> 50" and "length (doc_topCounterparties doc) \<le> 50"
  by (simp_all add: export_flow_data_Inr(4,5) [OF assms] top_liquidated_def
        top_counterparties_def)

lemma totals_out_process_row:
  "account_totals_out (process_row st row) =
     (if passes_filter row
      then dict_add (row_liquidated_user row) (row_notional row) (account_totals_out st)
      else account_totals_out st)"
  by (simp add: process_row_cases add_event_def bump_bounds_def)

lemma totals_in_process_row:
  "account_totals_in (process_row st row) =
     (if passes_filter row
      then dict_add (row_user row) (row_notional row) (account_totals_in st)
      else account_totals_in st)"
  by (simp add: process_row_cases add_event_def bump_bounds_def)

lemma flows_process_row:
  "account_flows (process_row st row) =
     (if passes_filter row
      then dict_add2 (row_liquidated_user row) (row_user row) (row_notional row) (account_flows st)
      else account_flows st)"
  by (simp add: process_row_cases add_event_def bump_bounds_def)

lemma dict_get_dict_add:
  "dict_get 0 (dict_add k n d) a = (if a = k then dict_get 0 d a + n else dict_get 0 d a)"
  by (induction d) (auto simp: dict_add_def)

lemma dict_get_entry:
  "distinct (dict_keys d) \<Longrightarrow> (a, v) \<in> set d \<Longrightarrow> dict_get dflt d a = v"
  by (induction d) (auto simp: dict_keys_def dest: key_in_dict)

lemma totals_out_foldl:
  "dict_get 0 (account_totals_out (foldl process_row st df)) a =
     foldl (+) (dict_get 0 (account_totals_out st) a)
       (map row_notional (filter (\<lambda>r. passes_filter r \<and> row_liquidated_user r = a) df))"
  by (induction df arbitrary: st) (simp_all add: totals_out_process_row dict_get_dict_add)

lemma totals_in_foldl:
  "dict_get 0 (account_totals_in (foldl process_row st df)) a =
     foldl (+) (dict_get 0 (account_totals_in st) a)
       (map row_notional (filter (\<lambda>r. passes_filter r \<and> row_user r = a) df))"
  by (induction df arbitrary: st) (simp_all add: totals_in_process_row dict_get_dict_add)

lemma keys_out_foldl:
  "set (dict_keys (account_totals_out (foldl process_row st df))) =
     set (dict_keys (account_totals_out st)) \<union> row_liquidated_user ` {r \<in> set df. passes_filter r}"
  by (induction df arbitrary: st)
     (auto simp: totals_out_process_row dict_add_def set_keys_dict_upd)

lemma keys_in_foldl:
  "set (dict_keys (account_totals_in (foldl process_row st df))) =
     set (dict_keys (account_totals_in st)) \<union> row_user ` {r \<in> set df. passes_filter r}"
  by (induction df arbitrary: st)
     (auto simp: totals_in_process_row dict_add_def set_keys_dict_upd)

lemma distinct_out_foldl:
  "distinct (dict_keys (account_totals_out st)) \<Longrightarrow>
   distinct (dict_keys (account_totals_out (foldl process_row st df)))"
  by (induction df arbitrary: st)
     (simp_all add: totals_out_process_row dict_add_def distinct_keys_dict_upd)

lemma distinct_in_foldl:
  "distinct (dict_keys (account_totals_in st)) \<Longrightarrow>
   distinct (dict_keys (account_totals_in (foldl process_row st df)))"
  by (induction df arbitrary: st)
     (simp_all add: totals_in_process_row dict_add_def distinct_keys_dict_upd)

lemma account_totals_out_accumulate:
  "distinct (map fst (account_totals_out (accumulate df)))"
  "fst ` set (account_totals_out (accumulate df)) =
     row_liquidated_user ` {r \<in> set df. passes_filter r}"
  "(a, v) \<in> set (account_totals_out (accumulate df)) \<Longrightarrow>
     v = foldl (+) 0
           (map row_notional (filter (\<lambda>r. passes_filter r \<and> row_liquidated_user r = a) df))"
proof -
  show d: "distinct (map fst (account_totals_out (accumulate df)))"
    using distinct_out_foldl [of init_state df]
    by (simp add: accumulate_def dict_keys_def init_state_def)
  show "fst ` set (account_totals_out (accumulate df)) =
     row_liquidated_user ` {r \<in> set df. passes_filter r}"
    using keys_out_foldl [of init_state df]
    by (simp add: accumulate_def dict_keys_def init_state_def)
  assume "(a, v) \<in> set (account_totals_out (accumulate df))"
  with d have "dict_get 0 (account_totals_out (accumulate df)) a = v"
    by (simp add: dict_get_entry dict_keys_def)
  then show "v = foldl (+) 0
           (map row_notional (filter (\<lambda>r. passes_filter r \<and> row_liquidated_user r = a) df))"
    by (simp add: accumulate_def totals_out_foldl init_state_def)
qed

lemma account_totals_in_accumulate:
  "distinct (map fst (account_totals_in (accumulate df)))"
  "fst ` set (account_totals_in (accumulate df)) = row_user ` {r \<in> set df. passes_filter r}"
  "(a, v) \<in> set (account_totals_in (accumulate df)) \<Longrightarrow>
     v = foldl (+) 0
           (map row_notional (filter (\<lambda>r. passes_filter r \<and> row_user r = a) df))"
proof -
  show d: "distinct (map fst (account_totals_in (accumulate df)))"
    using distinct_in_foldl [of init_state df]
    by (simp add: accumulate_def dict_keys_def init_state_def)
  show "fst ` set (account_totals_in (accumulate df)) = row_user ` {r \<in> set df. passes_filter r}"
    using keys_in_foldl [of init_state df]
    by (simp add: accumulate_def dict_keys_def init_state_def)
  assume "(a, v) \<in> set (account_totals_in (accumulate df))"
  with d have "dict_get 0 (account_totals_in (accumulate df)) a = v"
    by (simp add: dict_get_entry dict_keys_def)
  then show "v = foldl (+) 0
           (map row_notional (filter (\<lambda>r. passes_filter r \<and> row_user r = a) df))"
    by (simp add: accumulate_def totals_in_foldl init_state_def)
qed

lemma top_of_sorted:
  fixes d :: "('k, real) dict"
  defines "kept \<equiv> take 50 (sorted_by_total_desc d)"
  shows "length kept = min 50 (length d)"
    and "set kept \<subseteq> set d"
    and "sorted_wrt (\<lambda>x y. snd y \<le> snd x) kept"
    and "\<forall>x \<in> set d. x \<notin> set kept \<longrightarrow> (\<forall>y \<in> set kept. snd x \<le> snd y)"
proof -
  let ?f = "\<lambda>x :: 'k \<times> real. - snd x"
  let ?s = "sort_key ?f d"
  have kept: "kept = take 50 ?s" by (simp add: kept_def sorted_by_total_desc_def)
  show "length kept = min 50 (length d)" by (simp add: kept)
  show "set kept \<subseteq> set d" using set_take_subset [of 50 ?s] by (simp add: kept)
  have srt: "sorted (map ?f ?s)" by (rule sorted_sort_key)
  then have "sorted_wrt (\<lambda>x y. ?f x \<le> ?f y) ?s" by (simp add: sorted_map)
  then have "sorted_wrt (\<lambda>x y. ?f x \<le> ?f y) (take 50 ?s)" by (rule sorted_wrt_take)
  then show "sorted_wrt (\<lambda>x y. snd y \<le> snd x) kept" by (simp add: kept)
  have "sorted (map ?f (take 50 ?s @ drop 50 ?s))" using srt by simp
  then have le: "\<forall>y \<in> set (take 50 ?s). \<forall>x \<in> set (drop 50 ?s). ?f y \<le> ?f x"
    unfolding map_append sorted_append by auto
  show "\<forall>x \<in> set d. x \<notin> set kept \<longrightarrow> (\<forall>y \<in> set kept. snd x \<le> snd y)"
  proof (intro ballI impI)
    fix x y assume x: "x \<in> set d" "x \<notin> set kept" and y: "y \<in> set kept"
    from x(1) have "x \<in> set (take 50 ?s @ drop 50 ?s)" by simp
    with x(2) have "x \<in> set (drop 50 ?s)" unfolding set_append kept by blast
    with le y show "snd x \<le> snd y" by (auto simp: kept)
  qed
qed

lemma account_flows_list_iff:
  "e \<in> set (account_flows_list st) \<longleftrightarrow>
     fe_source e \<in> top_accounts_set st \<and> fe_target e \<in> top_accounts_set st
     \<and> 0 < fe_notional e
     \<and> (\<exists>targets. (fe_source e, targets) \<in> set (account_flows st)
                  \<and> (fe_target e, fe_notional e) \<in> set targets)"
  (is "?L \<longleftrightarrow> ?R")
proof
  assume l: ?L
  obtain s t n where e: "e = \<lparr> fe_source = s, fe_target = t, fe_notional = n \<rparr>"
    by (cases e)
  from l show ?R
    unfolding e by (auto simp: account_flows_list_def split: if_splits)
next
  assume r: ?R
  then obtain targets where t: "(fe_source e, targets) \<in> set (account_flows st)"
    "(fe_target e, fe_notional e) \<in> set targets"
    by blast
  let ?g = "\<lambda>(source, targets).
       if source \<notin> top_accounts_set st then []
       else map (\<lambda>(target, notional).
                   \<lparr> fe_source = source, fe_target = target, fe_notional = notional \<rparr>)
              (filter (\<lambda>(target, notional). target \<in> top_accounts_set st \<and> 0 < notional)
                 targets)"
  have "\<lparr> fe_source = fe_source e, fe_target = fe_target e, fe_notional = fe_notional e \<rparr>
          \<in> set (?g (fe_source e, targets))"
    using r t(2) by (simp add: image_iff)
  moreover have
    "\<lparr> fe_source = fe_source e, fe_target = fe_target e, fe_notional = fe_notional e \<rparr> = e"
    by (cases e) simp
  ultimately have "e \<in> set (?g (fe_source e, targets))"
    by (simp only:)
  with t(1) have "\<exists>x \<in> set (account_flows st). e \<in> set (?g x)"
    by (rule_tac bexI)
  then show ?L
    unfolding account_flows_list_def set_concat set_map by blast
qed

lemma two_way_accumulate:
  "account_flows (accumulate two_way_rows) = [(''U1'', [(''U2'', 100)]), (''U2'', [(''U1'', 50)])]"
  "account_totals_out (accumulate two_way_rows) = [(''U1'', 100), (''U2'', 50)]"
  "account_totals_in (accumulate two_way_rows) = [(''U2'', 100), (''U1'', 50)]"
  by (simp_all add: flow_defs two_way_rows_def)

lemma two_way_tops:
  "top_liquidated (accumulate two_way_rows) = [(''U1'', 100), (''U2'', 50)]"
  "top_counterparties (accumulate two_way_rows) = [(''U2'', 100), (''U1'', 50)]"
  by (simp_all add: top_liquidated_def top_counterparties_def sorted_by_total_desc_def
        two_way_accumulate)

lemma two_way_edges:
  "account_flows_list (accumulate two_way_rows) =
     [\<lparr> fe_source = ''U1'', fe_target = ''U2'', fe_notional = 100 \<rparr>,
      \<lparr> fe_source = ''U2'', fe_target = ''U1'', fe_notional = 50 \<rparr>]"
  by (simp add: account_flows_list_def top_accounts_set_def two_way_tops two_way_accumulate)

lemma two_way_export:
  "\<exists>doc. export_flow_data (\<lambda>x. Inr ''1970-01-01T00:00:01+00:00'') two_way_rows = Inr doc"
  by (rule export_flow_data_returns) (simp_all add: two_way_rows_def)

lemma ladder_pass: "passes_filter (ladder_row i) \<longleftrightarrow> 0 < i"
  by (auto simp: passes_filter_iff ladder_row_def)

lemma ladder_accumulate:
  "account_totals_out (accumulate ladder_rows) =
     [(''L1'', 1), (''L2'', 2), (''L3'', 3), (''L4'', 4), (''L5'', 5), (''L6'', 6), (''L7'',
      7), (''L8'', 8), (''L9'', 9), (''L10'', 10), (''L11'', 11), (''L12'', 12), (''L13'',
      13), (''L14'', 14), (''L15'', 15), (''L16'', 16), (''L17'', 17), (''L18'', 18),
      (''L19'', 19), (''L20'', 20), (''L21'', 21), (''L22'', 22), (''L23'', 23), (''L24'',
      24), (''L25'', 25), (''L26'', 26), (''L27'', 27), (''L28'', 28), (''L29'', 29),
      (''L30'', 30), (''L31'', 31), (''L32'', 32), (''L33'', 33), (''L34'', 34), (''L35'',
      35), (''L36'', 36), (''L37'', 37), (''L38'', 38), (''L39'', 39), (''L40'', 40),
      (''L41'', 41), (''L42'', 42), (''L43'', 43), (''L44'', 44), (''L45'', 45), (''L46'',
      46), (''L47'', 47), (''L48'', 48), (''L49'', 49), (''L50'', 50), (''L51'', 51)]"
  "account_totals_in (accumulate ladder_rows) =
     [(''C1'', 1), (''C2'', 2), (''C3'', 3), (''C4'', 4), (''C5'', 5), (''C6'', 6), (''C7'',
      7), (''C8'', 8), (''C9'', 9), (''C10'', 10), (''C11'', 11), (''C12'', 12), (''C13'',
      13), (''C14'', 14), (''C15'', 15), (''C16'', 16), (''C17'', 17), (''C18'', 18),
      (''C19'', 19), (''C20'', 20), (''C21'', 21), (''C22'', 22), (''C23'', 23), (''C24'',
      24), (''C25'', 25), (''C26'', 26), (''C27'', 27), (''C28'', 28), (''C29'', 29),
      (''C30'', 30), (''C31'', 31), (''C32'', 32), (''C33'', 33), (''C34'', 34), (''C35'',
      35), (''C36'', 36), (''C37'', 37), (''C38'', 38), (''C39'', 39), (''C40'', 40),
      (''C41'', 41), (''C42'', 42), (''C43'', 43), (''C44'', 44), (''C45'', 45), (''C46'',
      46), (''C47'', 47), (''C48'', 48), (''C49'', 49), (''C50'', 50), (''C51'', 51)]"
  "account_flows (accumulate ladder_rows) =
     [(''L1'', [(''C1'', 1)]), (''L2'', [(''C2'', 2)]), (''L3'', [(''C3'', 3)]), (''L4'',
      [(''C4'', 4)]), (''L5'', [(''C5'', 5)]), (''L6'', [(''C6'', 6)]), (''L7'', [(''C7'',
      7)]), (''L8'', [(''C8'', 8)]), (''L9'', [(''C9'', 9)]), (''L10'', [(''C10'', 10)]),
      (''L11'', [(''C11'', 11)]), (''L12'', [(''C12'', 12)]), (''L13'', [(''C13'', 13)]),
      (''L14'', [(''C14'', 14)]), (''L15'', [(''C15'', 15)]), (''L16'', [(''C16'', 16)]),
      (''L17'', [(''C17'', 17)]), (''L18'', [(''C18'', 18)]), (''L19'', [(''C19'', 19)]),
      (''L20'', [(''C20'', 20)]), (''L21'', [(''C21'', 21)]), (''L22'', [(''C22'', 22)]),
      (''L23'', [(''C23'', 23)]), (''L24'', [(''C24'', 24)]), (''L25'', [(''C25'', 25)]),
      (''L26'', [(''C26'', 26)]), (''L27'', [(''C27'', 27)]), (''L28'', [(''C28'', 28)]),
      (''L29'', [(''C29'', 29)]), (''L30'', [(''C30'', 30)]), (''L31'', [(''C31'', 31)]),
      (''L32'', [(''C32'', 32)]), (''L33'', [(''C33'', 33)]), (''L34'', [(''C34'', 34)]),
      (''L35'', [(''C35'', 35)]), (''L36'', [(''C36'', 36)]), (''L37'', [(''C37'', 37)]),
      (''L38'', [(''C38'', 38)]), (''L39'', [(''C39'', 39)]), (''L40'', [(''C40'', 40)]),
      (''L41'', [(''C41'', 41)]), (''L42'', [(''C42'', 42)]), (''L43'', [(''C43'', 43)]),
      (''L44'', [(''C44'', 44)]), (''L45'', [(''C45'', 45)]), (''L46'', [(''C46'', 46)]),
      (''L47'', [(''C47'', 47)]), (''L48'', [(''C48'', 48)]), (''L49'', [(''C49'', 49)]),
      (''L50'', [(''C50'', 50)]), (''L51'', [(''C51'', 51)])]"
  unfolding accumulate_def ladder_rows_def
  by (simp_all add: totals_out_process_row totals_in_process_row flows_process_row ladder_pass)
     (simp_all add: ladder_row_def row_notional_def float_abs_def init_state_def dict_add_def
        dict_add2_def)

lemma ladder_tops:
  "top_liquidated (accumulate ladder_rows) =
     [(''L51'', 51), (''L50'', 50), (''L49'', 49), (''L48'', 48), (''L47'', 47), (''L46'',
      46), (''L45'', 45), (''L44'', 44), (''L43'', 43), (''L42'', 42), (''L41'', 41),
      (''L40'', 40), (''L39'', 39), (''L38'', 38), (''L37'', 37), (''L36'', 36), (''L35'',
      35), (''L34'', 34), (''L33'', 33), (''L32'', 32), (''L31'', 31), (''L30'', 30),
      (''L29'', 29), (''L28'', 28), (''L27'', 27), (''L26'', 26), (''L25'', 25), (''L24'',
      24), (''L23'', 23), (''L22'', 22), (''L21'', 21), (''L20'', 20), (''L19'', 19),
      (''L18'', 18), (''L17'', 17), (''L16'', 16), (''L15'', 15), (''L14'', 14), (''L13'',
      13), (''L12'', 12), (''L11'', 11), (''L10'', 10), (''L9'', 9), (''L8'', 8), (''L7'',
      7), (''L6'', 6), (''L5'', 5), (''L4'', 4), (''L3'', 3), (''L2'', 2)]"
  "top_counterparties (accumulate ladder_rows) =
     [(''C51'', 51), (''C50'', 50), (''C49'', 49), (''C48'', 48), (''C47'', 47), (''C46'',
      46), (''C45'', 45), (''C44'', 44), (''C43'', 43), (''C42'', 42), (''C41'', 41),
      (''C40'', 40), (''C39'', 39), (''C38'', 38), (''C37'', 37), (''C36'', 36), (''C35'',
      35), (''C34'', 34), (''C33'', 33), (''C32'', 32), (''C31'', 31), (''C30'', 30),
      (''C29'', 29), (''C28'', 28), (''C27'', 27), (''C26'', 26), (''C25'', 25), (''C24'',
      24), (''C23'', 23), (''C22'', 22), (''C21'', 21), (''C20'', 20), (''C19'', 19),
      (''C18'', 18), (''C17'', 17), (''C16'', 16), (''C15'', 15), (''C14'', 14), (''C13'',
      13), (''C12'', 12), (''C11'', 11), (''C10'', 10), (''C9'', 9), (''C8'', 8), (''C7'',
      7), (''C6'', 6), (''C5'', 5), (''C4'', 4), (''C3'', 3), (''C2'', 2)]"
  by (simp_all add: top_liquidated_def top_counterparties_def sorted_by_total_desc_def
        ladder_accumulate)

lemma ladder_export:
  "\<exists>doc. export_flow_data (\<lambda>x. Inr ''1970-01-01T00:00:01+00:00'') ladder_rows = Inr doc"
  by (rule export_flow_data_returns) (simp_all add: ladder_rows_def)

lemma ladder_outside:
  "''L1'' \<notin> top_accounts_set (accumulate ladder_rows)"
  "''L51'' \<in> top_accounts_set (accumulate ladder_rows)"
  "''C51'' \<in> top_accounts_set (accumulate ladder_rows)"
  by (simp_all add: top_accounts_set_def ladder_tops)

text \<open>
  Claim C5. The two top lists of the document are the first 50 entries of the accounts'
  outgoing and incoming totals in descending order of the total: each list has
  \<open>min 50 n\<close> entries for \<open>n\<close> accounts, all of them entries of the totals, with the totals
  non-increasing along the list and no left-out total above a kept one. The accounts with
  an outgoing total are the liquidated users of the rows that pass the notional check, the
  total of an account being the sum, in row order, of the notionals of its rows; likewise
  for the incoming totals and the users. An edge is in the account flows of the document
  exactly if its source and its target are among the accounts of the two lists taken
  together and it is a positive entry of the accumulated account flows; so every emitted
  edge has both endpoints among these accounts and a pair with an endpoint outside them
  has no edge. An account in both lists can be the source of one edge and the target of
  another, as in the run on \<open>two_way_rows\<close>.
\<close>

theorem C5_edges_within_top_accounts:
  "(export_flow_data utc_isoformat df = Inr doc \<longrightarrow>
      length (doc_topLiquidated doc) \<le> 50 \<and> length (doc_topCounterparties doc) \<le> 50
      \<and> (\<forall>e \<in> set (doc_accountFlows doc).
            fe_source e \<in> fst ` set (doc_topLiquidated doc) \<union> fst ` set (doc_topCounterparties doc)
          \<and> fe_target e \<in> fst ` set (doc_topLiquidated doc) \<union> fst ` set (doc_topCounterparties doc))
      \<and> (\<forall>s t. s \<notin> fst ` set (doc_topLiquidated doc) \<union> fst ` set (doc_topCounterparties doc)
                \<or> t \<notin> fst ` set (doc_topLiquidated doc) \<union> fst ` set (doc_topCounterparties doc)
            \<longrightarrow> \<not> (\<exists>e \<in> set (doc_accountFlows doc). fe_source e = s \<and> fe_target e = t))
      \<and> (\<forall>e. e \<in> set (doc_accountFlows doc) \<longleftrightarrow>
            fe_source e \<in> fst ` set (doc_topLiquidated doc) \<union> fst ` set (doc_topCounterparties doc)
          \<and> fe_target e \<in> fst ` set (doc_topLiquidated doc) \<union> fst ` set (doc_topCounterparties doc)
          \<and> 0 < fe_notional e
          \<and> (\<exists>targets. (fe_source e, targets) \<in> set (account_flows (accumulate df))
                \<and> (fe_target e, fe_notional e) \<in> set targets))
      \<and> length (doc_topLiquidated doc) = min 50 (length (account_totals_out (accumulate df)))
      \<and> set (doc_topLiquidated doc) \<subseteq> set (account_totals_out (accumulate df))
      \<and> sorted_wrt (\<lambda>x y. snd y \<le> snd x) (doc_topLiquidated doc)
      \<and> (\<forall>x \<in> set (account_totals_out (accumulate df)). x \<notin> set (doc_topLiquidated doc)
            \<longrightarrow> (\<forall>y \<in> set (doc_topLiquidated doc). snd x \<le> snd y))
      \<and> length (doc_topCounterparties doc) = min 50 (length (account_totals_in (accumulate df)))
      \<and> set (doc_topCounterparties doc) \<subseteq> set (account_totals_in (accumulate df))
      \<and> sorted_wrt (\<lambda>x y. snd y \<le> snd x) (doc_topCounterparties doc)
      \<and> (\<forall>x \<in> set (account_totals_in (accumulate df)). x \<notin> set (doc_topCounterparties doc)
            \<longrightarrow> (\<forall>y \<in> set (doc_topCounterparties doc). snd x \<le> snd y))
      \<and> distinct (map fst (account_totals_out (accumulate df)))
      \<and> fst ` set (account_totals_out (accumulate df)) =
            row_liquidated_user ` {r \<in> set df. passes_filter r}
      \<and> (\<forall>a v. (a, v) \<in> set (account_totals_out (accumulate df)) \<longrightarrow>
            v = foldl (+) 0 (map row_notional
                  (filter (\<lambda>r. passes_filter r \<and> row_liquidated_user r = a) df)))
      \<and> distinct (map fst (account_totals_in (accumulate df)))
      \<and> fst ` set (account_totals_in (accumulate df)) = row_user ` {r \<in> set df. passes_filter r}
      \<and> (\<forall>a v. (a, v) \<in> set (account_totals_in (accumulate df)) \<longrightarrow>
            v = foldl (+) 0 (map row_notional
                  (filter (\<lambda>r. passes_filter r \<and> row_user r = a) df))))
   \<and> (\<exists>doc' a e1 e2.
         export_flow_data (\<lambda>x. Inr ''1970-01-01T00:00:01+00:00'') two_way_rows = Inr doc'
       \<and> a \<in> fst ` set (doc_topLiquidated doc') \<and> a \<in> fst ` set (doc_topCounterparties doc')
       \<and> e1 \<in> set (doc_accountFlows doc') \<and> fe_source e1 = a
       \<and> e2 \<in> set (doc_accountFlows doc') \<and> fe_target e2 = a)"
proof (intro conjI impI)
  let ?T = "fst ` set (doc_topLiquidated doc) \<union> fst ` set (doc_topCounterparties doc)"
  let ?out = "account_totals_out (accumulate df)"
  let ?in = "account_totals_in (accumulate df)"
  assume doc: "export_flow_data utc_isoformat df = Inr doc"
  have L: "doc_topLiquidated doc = take 50 (sorted_by_total_desc ?out)"
    by (simp add: export_flow_data_Inr(4) [OF doc] top_liquidated_def)
  have C: "doc_topCounterparties doc = take 50 (sorted_by_total_desc ?in)"
    by (simp add: export_flow_data_Inr(5) [OF doc] top_counterparties_def)
  show "length (doc_topLiquidated doc) \<le> 50" "length (doc_topCounterparties doc) \<le> 50"
    by (rule top_lists_length [OF doc])+
  have ends: "fe_source e \<in> ?T \<and> fe_target e \<in> ?T" if "e \<in> set (doc_accountFlows doc)" for e
    using that account_flows_list_endpoints [of e "accumulate df"]
    by (simp add: export_flow_data_Inr(3) [OF doc] top_accounts_set_doc [OF doc])
  then show "\<forall>e \<in> set (doc_accountFlows doc). fe_source e \<in> ?T \<and> fe_target e \<in> ?T"
    by blast
  from ends show "\<forall>s t. s \<notin> ?T \<or> t \<notin> ?T
      \<longrightarrow> \<not> (\<exists>e \<in> set (doc_accountFlows doc). fe_source e = s \<and> fe_target e = t)"
    by blast
  show "\<forall>e. e \<in> set (doc_accountFlows doc) \<longleftrightarrow>
            fe_source e \<in> ?T \<and> fe_target e \<in> ?T \<and> 0 < fe_notional e
          \<and> (\<exists>targets. (fe_source e, targets) \<in> set (account_flows (accumulate df))
                \<and> (fe_target e, fe_notional e) \<in> set targets)"
    unfolding export_flow_data_Inr(3) [OF doc] top_accounts_set_doc [OF doc, symmetric]
    by (rule allI) (rule account_flows_list_iff)
  show "length (doc_topLiquidated doc) = min 50 (length ?out)"
    unfolding L by (rule top_of_sorted(1))
  show "set (doc_topLiquidated doc) \<subseteq> set ?out"
    unfolding L by (rule top_of_sorted(2))
  show "sorted_wrt (\<lambda>x y. snd y \<le> snd x) (doc_topLiquidated doc)"
    unfolding L by (rule top_of_sorted(3))
  show "\<forall>x \<in> set ?out. x \<notin> set (doc_topLiquidated doc)
            \<longrightarrow> (\<forall>y \<in> set (doc_topLiquidated doc). snd x \<le> snd y)"
    unfolding L by (rule top_of_sorted(4))
  show "length (doc_topCounterparties doc) = min 50 (length ?in)"
    unfolding C by (rule top_of_sorted(1))
  show "set (doc_topCounterparties doc) \<subseteq> set ?in"
    unfolding C by (rule top_of_sorted(2))
  show "sorted_wrt (\<lambda>x y. snd y \<le> snd x) (doc_topCounterparties doc)"
    unfolding C by (rule top_of_sorted(3))
  show "\<forall>x \<in> set ?in. x \<notin> set (doc_topCounterparties doc)
            \<longrightarrow> (\<forall>y \<in> set (doc_topCounterparties doc). snd x \<le> snd y)"
    unfolding C by (rule top_of_sorted(4))
  show "distinct (map fst ?out)"
    by (rule account_totals_out_accumulate(1))
  show "fst ` set ?out = row_liquidated_user ` {r \<in> set df. passes_filter r}"
    by (rule account_totals_out_accumulate(2))
  show "\<forall>a v. (a, v) \<in> set ?out \<longrightarrow>
            v = foldl (+) 0 (map row_notional
                  (filter (\<lambda>r. passes_filter r \<and> row_liquidated_user r = a) df))"
    by (intro allI impI) (rule account_totals_out_accumulate(3))
  show "distinct (map fst ?in)"
    by (rule account_totals_in_accumulate(1))
  show "fst ` set ?in = row_user ` {r \<in> set df. passes_filter r}"
    by (rule account_totals_in_accumulate(2))
  show "\<forall>a v. (a, v) \<in> set ?in \<longrightarrow>
            v = foldl (+) 0 (map row_notional
                  (filter (\<lambda>r. passes_filter r \<and> row_user r = a) df))"
    by (intro allI impI) (rule account_totals_in_accumulate(3))
next
  from two_way_export obtain doc' where
    doc': "export_flow_data (\<lambda>x. Inr ''1970-01-01T00:00:01+00:00'') two_way_rows = Inr doc'"
    by blast
  have "''U1'' \<in> fst ` set (doc_topLiquidated doc')"
       "''U1'' \<in> fst ` set (doc_topCounterparties doc')"
    by (simp_all add: export_flow_data_Inr(4,5) [OF doc'] two_way_tops)
  moreover have
    "\<lparr> fe_source = ''U1'', fe_target = ''U2'', fe_notional = 100 \<rparr> \<in> set (doc_accountFlows doc')"
    "\<lparr> fe_source = ''U2'', fe_target = ''U1'', fe_notional = 50 \<rparr> \<in> set (doc_accountFlows doc')"
    by (simp_all add: export_flow_data_Inr(3) [OF doc'] two_way_edges)
  ultimately show "\<exists>doc' a e1 e2.
         export_flow_data (\<lambda>x. Inr ''1970-01-01T00:00:01+00:00'') two_way_rows = Inr doc'
       \<and> a \<in> fst ` set (doc_topLiquidated doc') \<and> a \<in> fst ` set (doc_topCounterparties doc')
       \<and> e1 \<in> set (doc_accountFlows doc') \<and> fe_source e1 = a
       \<and> e2 \<in> set (doc_accountFlows doc') \<and> fe_target e2 = a"
    using doc' by (metis flow_edge.select_convs(1,2))
qed

theorem C5_edges_within_top_accounts_witness:
  "\<exists>doc. export_flow_data (\<lambda>x. Inr ''1970-01-01T00:00:01+00:00'') ladder_rows = Inr doc
     \<and> length (account_totals_out (accumulate ladder_rows)) = 51
     \<and> length (doc_topLiquidated doc) = 50 \<and> length (doc_topCounterparties doc) = 50
     \<and> hd (account_totals_out (accumulate ladder_rows)) = (''L1'', 1)
     \<and> hd (doc_topLiquidated doc) = (''L51'', 51)
     \<and> (''L1'', 1) \<notin> set (doc_topLiquidated doc)
     \<and> (''L2'', 2) \<in> set (doc_topLiquidated doc)
     \<and> ''L1'' \<notin> fst ` set (doc_topLiquidated doc) \<union> fst ` set (doc_topCounterparties doc)
     \<and> (''L1'', [(''C1'', 1)]) \<in> set (account_flows (accumulate ladder_rows))
     \<and> \<not> (\<exists>e \<in> set (doc_accountFlows doc). fe_source e = ''L1'' \<and> fe_target e = ''C1'')
     \<and> \<lparr> fe_source = ''L51'', fe_target = ''C51'', fe_notional = 51 \<rparr>
          \<in> set (doc_accountFlows doc)"
proof -
  from ladder_export obtain doc where
    doc: "export_flow_data (\<lambda>x. Inr ''1970-01-01T00:00:01+00:00'') ladder_rows = Inr doc"
    by blast
  let ?T = "fst ` set (doc_topLiquidated doc) \<union> fst ` set (doc_topCounterparties doc)"
  let ?e = "\<lparr> fe_source = ''L51'', fe_target = ''C51'', fe_notional = 51 \<rparr>"
  note props = C5_edges_within_top_accounts [THEN conjunct1, rule_format, OF doc]
  have dropped: "\<forall>s t. s \<notin> ?T \<or> t \<notin> ?T
      \<longrightarrow> \<not> (\<exists>e \<in> set (doc_accountFlows doc). fe_source e = s \<and> fe_target e = t)"
    using props by (elim conjE)
  have emitted: "\<forall>e. e \<in> set (doc_accountFlows doc) \<longleftrightarrow>
            fe_source e \<in> ?T \<and> fe_target e \<in> ?T \<and> 0 < fe_notional e
          \<and> (\<exists>targets. (fe_source e, targets) \<in> set (account_flows (accumulate ladder_rows))
                \<and> (fe_target e, fe_notional e) \<in> set targets)"
    using props by (elim conjE)
  have lenL: "length (doc_topLiquidated doc) =
      min 50 (length (account_totals_out (accumulate ladder_rows)))"
    using props by (elim conjE)
  have lenC: "length (doc_topCounterparties doc) =
      min 50 (length (account_totals_in (accumulate ladder_rows)))"
    using props by (elim conjE)
  have T: "?T = top_accounts_set (accumulate ladder_rows)"
    by (rule top_accounts_set_doc [OF doc, symmetric])
  have len: "length (account_totals_out (accumulate ladder_rows)) = 51"
    by (simp add: ladder_accumulate(1))
  have len_in: "length (account_totals_in (accumulate ladder_rows)) = 51"
    by (simp add: ladder_accumulate(2))
  have l50: "length (doc_topLiquidated doc) = 50"
    by (simp add: lenL len)
  have c50: "length (doc_topCounterparties doc) = 50"
    by (simp add: lenC len_in)
  have first: "hd (account_totals_out (accumulate ladder_rows)) = (''L1'', 1)"
    by (simp add: ladder_accumulate(1))
  have top: "hd (doc_topLiquidated doc) = (''L51'', 51)"
    by (simp add: export_flow_data_Inr(4) [OF doc] ladder_tops(1))
  have left_out: "(''L1'', 1) \<notin> set (doc_topLiquidated doc)"
    by (simp add: export_flow_data_Inr(4) [OF doc] ladder_tops(1))
  have kept: "(''L2'', 2) \<in> set (doc_topLiquidated doc)"
    by (simp add: export_flow_data_Inr(4) [OF doc] ladder_tops(1))
  have outside: "''L1'' \<notin> ?T"
    unfolding T by (rule ladder_outside(1))
  have flow: "(''L1'', [(''C1'', 1)]) \<in> set (account_flows (accumulate ladder_rows))"
    by (simp add: ladder_accumulate(3))
  have "''L1'' \<notin> ?T \<or> ''C1'' \<notin> ?T"
    using outside by (rule disjI1)
  moreover have "''L1'' \<notin> ?T \<or> ''C1'' \<notin> ?T
      \<longrightarrow> \<not> (\<exists>e \<in> set (doc_accountFlows doc). fe_source e = ''L1'' \<and> fe_target e = ''C1'')"
    using dropped [THEN spec, of "''L1''"] by (rule spec)
  ultimately have no_edge:
    "\<not> (\<exists>e \<in> set (doc_accountFlows doc). fe_source e = ''L1'' \<and> fe_target e = ''C1'')"
    by (rule rev_mp)
  have "(''L51'', [(''C51'', 51)]) \<in> set (account_flows (accumulate ladder_rows))"
    by (simp add: ladder_accumulate(3))
  then have "\<exists>targets. (fe_source ?e, targets) \<in> set (account_flows (accumulate ladder_rows))
                \<and> (fe_target ?e, fe_notional ?e) \<in> set targets"
    by (intro exI [of _ "[(''C51'', 51)]"] conjI) simp_all
  moreover have "fe_source ?e \<in> ?T" "fe_target ?e \<in> ?T" "0 < fe_notional ?e"
    unfolding T by (simp_all add: ladder_outside)
  ultimately have "fe_source ?e \<in> ?T \<and> fe_target ?e \<in> ?T \<and> 0 < fe_notional ?e
          \<and> (\<exists>targets. (fe_source ?e, targets) \<in> set (account_flows (accumulate ladder_rows))
                \<and> (fe_target ?e, fe_notional ?e) \<in> set targets)"
    by (intro conjI)
  with emitted [THEN spec, of ?e] have edge: "?e \<in> set (doc_accountFlows doc)"
    by (rule iffD2)
  from doc len l50 c50 first top left_out kept outside flow no_edge edge show ?thesis
    by (intro exI [of _ doc] conjI)
qed

section \<open>Properties of the event export\<close>

subsection \<open>Timestamps\<close>

lemma ref_iso_example:
  "ref_fromisoformat_timestamp ''2023-10-10T00:00:00+00:00'' = Some 1696896000"
  by (simp add: ref_fromisoformat_timestamp_def nat_of_digits_def
     ymd_ordinal_def days_in_month_def month_lengths_def is_leap_def Let_def)

lemma ref_iso_not_a_timestamp: "ref_fromisoformat_timestamp ''not-a-timestamp'' = None"
  by (simp add: ref_fromisoformat_timestamp_def)

lemma ref_iso_digits: "ref_fromisoformat_timestamp ''1696900000'' = None"
  by (simp add: ref_fromisoformat_timestamp_def)

lemma ref_float_not_a_timestamp: "ref_float_of_str ''not-a-timestamp'' = None"
  by (simp add: ref_float_of_str_def nat_of_digits_def)

lemma ref_float_digits: "ref_float_of_str ''1696900000'' = Some (Num 1696900000)"
  by (simp add: ref_float_of_str_def nat_of_digits_def)

lemma str_replace_from_no_Z:
  "CHR ''Z'' \<notin> set t \<Longrightarrow>
     str_replace_from ''Z'' ''+00:00'' 0 (t @ ''Z'') = t @ ''+00:00''"
  by (induction t) auto

lemma str_replace_trailing_Z:
  "CHR ''Z'' \<notin> set t \<Longrightarrow> str_replace ''Z'' ''+00:00'' (t @ ''Z'') = t @ ''+00:00''"
  by (simp add: str_replace_def str_replace_from_no_Z)

lemma parse_timestamp_int:
  "parse_timestamp lib (IntV n) = Inr (Some (if real_of_int n < 10 ^ 12 then n * 1000 else n))"
  by simp

lemma parse_timestamp_float:
  "parse_timestamp lib (FloatV (Num r)) =
     (if r < 10 ^ 12
      then (case times_1000 lib r of
              None \<Rightarrow> Inl OverflowError
            | Some product \<Rightarrow> Inr (Some (py_int product)))
      else Inr (Some (py_int r)))"
  by (simp add: ms_of_number_def split: option.splits)

lemma parse_timestamp_examples:
  "parse_timestamp lib (IntV 1696900000000) = Inr (Some 1696900000000)"
  "parse_timestamp lib (IntV 1696900000) = Inr (Some 1696900000000)"
  "parse_timestamp ref_lib (StrV ''2023-10-10T00:00:00Z'') = Inr (Some 1696896000000)"
  "parse_timestamp ref_lib (StrV ''1696900000'') = Inr (Some 1696900000000)"
  "parse_timestamp ref_lib (StrV ''not-a-timestamp'') = Inr None"
  by (simp_all add: ref_lib_def str_replace_def ref_iso_example ref_iso_digits ref_float_digits
        ref_iso_not_a_timestamp ref_float_not_a_timestamp numeric_string_ms_def
        ms_of_number_def py_int_def)

text \<open>
  Claim C6 says that a numeric input below \<^verbatim>\<open>1e12\<close> is multiplied by 1000 and any other
  numeric input is returned as milliseconds, and that a string that cannot be read gives
  \<^verbatim>\<open>None\<close>. On integers, on the strings of the claim and on floats that are numbers the code
  does so (the three lemmas above). On the float NaN, which is what a missing cell is, it
  does neither: \<^verbatim>\<open>int(ts)\<close> raises \<^verbatim>\<open>ValueError\<close> in the numeric branch, where nothing
  catches it, while the text \<^verbatim>\<open>not-a-timestamp\<close> gives \<^verbatim>\<open>None\<close>.
\<close>

theorem C6_nan_raises:
  "parse_timestamp lib (FloatV NaN) = Inl ValueError
   \<and> parse_timestamp ref_lib (StrV ''not-a-timestamp'') = Inr None"
  by (simp add: parse_timestamp_examples del: parse_timestamp.simps) simp

subsection \<open>The side of an event\<close>

lemma py_in_iff: "py_in sub s \<longleftrightarrow> (\<exists>pre post. s = pre @ sub @ post)"
proof (induction s)
  case Nil
  then show ?case by auto
next
  case (Cons c cs)
  have pre: "take (length sub) (c # cs) = sub \<longleftrightarrow> (\<exists>post. c # cs = sub @ post)"
    by (metis append_eq_conv_conj)
  have split: "(\<exists>pre post. c # cs = pre @ sub @ post) \<longleftrightarrow>
      (\<exists>post. c # cs = sub @ post) \<or> (\<exists>pre post. cs = pre @ sub @ post)"
  proof
    assume "\<exists>pre post. c # cs = pre @ sub @ post"
    then obtain pre post where eq: "c # cs = pre @ sub @ post" by blast
    show "(\<exists>post. c # cs = sub @ post) \<or> (\<exists>pre post. cs = pre @ sub @ post)"
    proof (cases pre)
      case Nil
      with eq show ?thesis by auto
    next
      case (Cons a pre')
      with eq have "cs = pre' @ sub @ post" by simp
      then show ?thesis by blast
    qed
  next
    assume "(\<exists>post. c # cs = sub @ post) \<or> (\<exists>pre post. cs = pre @ sub @ post)"
    then show "\<exists>pre post. c # cs = pre @ sub @ post"
    proof
      assume "\<exists>post. c # cs = sub @ post"
      then obtain post where "c # cs = [] @ sub @ post" by auto
      then show ?thesis by blast
    next
      assume "\<exists>pre post. cs = pre @ sub @ post"
      then obtain pre post where "c # cs = (c # pre) @ sub @ post" by auto
      then show ?thesis by blast
    qed
  qed
  show ?case by (simp only: py_in.simps pre split Cons.IH)
qed





lemma rules_absent:
  "row ''side'' = None \<Longrightarrow> side_rule lib row = None"
  "row ''direction'' = None \<Longrightarrow> direction_rule lib row = None"
  "row ''position_size'' = None \<Longrightarrow> position_rule row = Inr None"
  by (simp_all add: side_rule_def direction_rule_def position_rule_def)





subsection \<open>The event list\<close>

lemma py_bind_simps:
  "py_bind (Inl e) f = Inl e" "py_bind (Inr x) f = f x"
  by (simp_all add: py_bind_def)

lemma py_bind_Inr:
  "py_bind m f = Inr y \<longleftrightarrow> (\<exists>x. m = Inr x \<and> f x = Inr y)"
  by (cases m) (simp_all add: py_bind_def)

lemma make_event_fields:
  assumes "make_event lib row t n = Inr ev"
  shows "ev_timestamp ev = t" and "ev_notionalUsd ev = n"
  using assms unfolding make_event_def Let_def py_bind_Inr by auto

lemma row_event_Some:
  assumes "row_event lib row = Inr (Some ev)"
  shows "resolve_timestamp lib row = Inr (Some (ev_timestamp ev))"
    and "resolve_notional lib row = Inr (Some (ev_notionalUsd ev))"
    and "\<not> float_le_zero (ev_notionalUsd ev)"
proof -
  from assms obtain t n where
    t: "resolve_timestamp lib row = Inr (Some t)"
    and n: "resolve_notional lib row = Inr (Some n)" "\<not> float_le_zero n"
    and ev: "make_event lib row t n = Inr ev"
    by (auto simp: row_event_def py_bind_Inr split: option.splits if_splits)
  from make_event_fields [OF ev] t n
  show "resolve_timestamp lib row = Inr (Some (ev_timestamp ev))"
    and "resolve_notional lib row = Inr (Some (ev_notionalUsd ev))"
    and "\<not> float_le_zero (ev_notionalUsd ev)"
    by simp_all
qed

lemma row_event_None:
  "row_event lib row = Inr None \<longleftrightarrow>
     resolve_timestamp lib row = Inr None
     \<or> (\<exists>t. resolve_timestamp lib row = Inr (Some t)
           \<and> (resolve_notional lib row = Inr None
                \<or> (\<exists>n. resolve_notional lib row = Inr (Some n) \<and> float_le_zero n)))"
proof (cases "resolve_timestamp lib row")
  case (Inl e)
  then show ?thesis by (simp add: row_event_def py_bind_simps)
next
  case ts: (Inr x)
  show ?thesis
  proof (cases x)
    case None
    with ts show ?thesis by (simp add: row_event_def py_bind_simps)
  next
    case (Some t)
    show ?thesis
    proof (cases "resolve_notional lib row")
      case (Inl e)
      with ts Some show ?thesis by (simp add: row_event_def py_bind_simps)
    next
      case nt: (Inr y)
      show ?thesis
      proof (cases y)
        case None
        with ts Some nt show ?thesis by (simp add: row_event_def py_bind_simps)
      next
        case n: (Some n)
        with ts Some nt show ?thesis
          by (cases "make_event lib row t n") (simp_all add: row_event_def py_bind_simps)
      qed
    qed
  qed
qed

lemma collect_events_Inr:
  "collect_events lib df = Inr evs \<longleftrightarrow>
     (\<forall>row \<in> set df. \<not> isl (row_event lib row)) \<and> evs = List.map_filter (emitted lib) df"
proof (induction df arbitrary: evs)
  case Nil
  then show ?case by (auto simp: List.map_filter_simps)
next
  case (Cons row df)
  show ?case
  proof (cases "row_event lib row")
    case (Inl e)
    then show ?thesis by (simp add: py_bind_simps)
  next
    case (Inr x)
    show ?thesis
    proof (cases "collect_events lib df")
      case (Inl e)
      with Cons.IH [of "List.map_filter (emitted lib) df"] Inr show ?thesis
        by (auto simp: py_bind_simps)
    next
      case right: (Inr rest)
      with Cons.IH [of rest] Inr show ?thesis
        by (cases x) (auto simp: py_bind_simps List.map_filter_simps emitted_def)
    qed
  qed
qed

lemma events_Inr:
  "events lib df = Inr out \<longleftrightarrow>
     (\<forall>row \<in> set df. \<not> isl (row_event lib row))
     \<and> out = sort_key ev_timestamp (List.map_filter (emitted lib) df)"
  unfolding events_def py_bind_Inr collect_events_Inr by auto

lemma events_on_success:
  assumes "events lib df = Inr out"
  shows "sorted (map ev_timestamp out)"
    and "filter (\<lambda>ev. ev_timestamp ev = t) out =
         filter (\<lambda>ev. ev_timestamp ev = t) (List.map_filter (emitted lib) df)"
    and "length out = length (filter (\<lambda>row. emitted lib row \<noteq> None) df)"
proof -
  from assms have out: "out = sort_key ev_timestamp (List.map_filter (emitted lib) df)"
    by (simp add: events_Inr)
  show "sorted (map ev_timestamp out)" unfolding out by (rule sorted_sort_key)
  show "filter (\<lambda>ev. ev_timestamp ev = t) out =
         filter (\<lambda>ev. ev_timestamp ev = t) (List.map_filter (emitted lib) df)"
    unfolding out by (rule sort_key_stable)
  show "length out = length (filter (\<lambda>row. emitted lib row \<noteq> None) df)"
    unfolding out by (simp add: List.map_filter_def)
qed

lemma missing_time_raises: "row_event lib missing_time_row = Inl ValueError"
  by (simp add: row_event_def resolve_timestamp_def missing_time_row_def py_bind_simps)

lemma text_time_dropped: "row_event ref_lib text_time_row = Inr None"
  by (simp add: row_event_def resolve_timestamp_def text_time_row_def py_bind_simps
        parse_timestamp_examples del: parse_timestamp.simps)

text \<open>
  A run on four complete rows: the zero-notional row is dropped, the row given in seconds
  comes first, and the two rows with equal timestamps keep their order.
\<close>

lemma events_example:
  "\<exists>out. events ref_lib event_rows = Inr out
     \<and> map (\<lambda>ev. (ev_timestamp ev, ev_asset ev, ev_side ev, ev_batchId ev)) out =
         [(1696900001000, ''SOL'', ''long'', ''1696900001''),
          (1696900002000, ''BTC'', ''long'', ''1696900002''),
          (1696900002000, ''ETH'', ''long'', ''1696900002'')]"
  by (simp add: events_def event_rows_def row_event_def resolve_timestamp_def
        resolve_notional_def present_def notna_def make_event_def optional_float_def
        determine_side_def rules_absent str_or_def py_bind_simps ref_lib_def
        float_le_zero_def str_of_int_def py_int_def Let_def)

text \<open>
  Claim C7 says that a row whose timestamp cannot be resolved is dropped and every other
  valid row still gives one event. The code does so for a text that is not a timestamp,
  but not for a missing \<^verbatim>\<open>time\<close> cell: pandas gives NaN, \<^verbatim>\<open>parse_timestamp\<close> takes the numeric
  branch and \<^verbatim>\<open>int(ts)\<close> raises \<^verbatim>\<open>ValueError\<close>, which ends the script without any event,
  although the row's notional resolves to 100.
\<close>

theorem C7_missing_time_raises:
  "resolve_notional lib missing_time_row = Inr (Some (Num 100))
   \<and> row_event lib missing_time_row = Inl ValueError
   \<and> events lib (missing_time_row # df) = Inl ValueError
   \<and> events ref_lib [text_time_row] = Inr []"
  by (simp add: events_def py_bind_simps missing_time_raises text_time_dropped)
     (simp add: resolve_notional_def present_def notna_def missing_time_row_def)



end
